theory Spec2Isabelle
  imports
    Main
    "HOL-Library.Multiset"
    "HOL-Library.Char_ord"
    "HOL-Library.List_Lexorder"
    "HOL-Library.Product_Lexorder"
begin

section \<open>squeue-gui: the table model and the refresh cycle\<close>

text \<open>
  A shallow embedding of \<^verbatim>\<open>squeue-gui.py\<close>: the table model class
  \<^verbatim>\<open>SqueueGUIModel\<close> and the window class \<^verbatim>\<open>SQGUIMainWindow\<close>.
  Objects are records, methods take the object and return it updated, and a raised
  exception is a value. A method that can raise after it has already assigned to
  \<^verbatim>\<open>self\<close> returns the pair of the exception (if any) and the object as the
  exception leaves it.
  The Qt signals (\<^verbatim>\<open>layoutAboutToBeChanged\<close>, \<^verbatim>\<open>layoutChanged\<close>,
  \<^verbatim>\<open>dataChanged\<close>) and the \<^verbatim>\<open>print\<close> calls carry no state of the program
  and are left out, as are the layout of the window and the version check of its
  constructor. What the view does is not part of the model either: the call
  \<^verbatim>\<open>resizeColumnsToContents\<close> that follows the update of the table in
  \<^verbatim>\<open>refresh\<close> makes the view ask \<^verbatim>\<open>data\<close> for the cells, and the outcome the
  model gives for \<^verbatim>\<open>refresh\<close> is the outcome of its statements up to that call.
\<close>

subsection \<open>Python values and exceptions\<close>

datatype py_error =
    IndexError
  | TypeError
  | KeyError
  | ValueError
  | AttributeError
  | OutOfBoundsDatetime
  | CalledProcessError
  | JSONDecodeError

text \<open>
  The objects a table cell holds: a Python \<^verbatim>\<open>int\<close>, a \<^verbatim>\<open>str\<close>, \<^verbatim>\<open>None\<close>
  (a JSON null), the float \<^verbatim>\<open>nan\<close> pandas fills a missing key with, a
  \<^verbatim>\<open>pandas.Timestamp\<close> on a whole second (given by its epoch second, as
  \<^verbatim>\<open>pd.to_datetime(..., unit='s')\<close> builds it, without time zone) and \<^verbatim>\<open>NaT\<close>.
\<close>

datatype cell =
    CInt int
  | CStr string
  | CNone
  | CNaN
  | CTime int
  | CNaT

text \<open>
  Python's \<^verbatim>\<open>a < b\<close> on two such objects. Integers, strings (code point order) and
  timestamps compare among themselves; a comparison with \<^verbatim>\<open>nan\<close> or \<^verbatim>\<open>NaT\<close>
  is false; \<^verbatim>\<open>None\<close> and objects of different types raise \<^verbatim>\<open>TypeError\<close>.
\<close>

fun cell_lt :: "cell \<Rightarrow> cell \<Rightarrow> py_error + bool" where
  "cell_lt (CInt a) (CInt b) = Inr (a < b)"
| "cell_lt (CStr a) (CStr b) = Inr (a < b)"
| "cell_lt (CTime a) (CTime b) = Inr (a < b)"
| "cell_lt (CInt a) CNaN = Inr False"
| "cell_lt CNaN (CInt b) = Inr False"
| "cell_lt CNaN CNaN = Inr False"
| "cell_lt (CTime a) CNaT = Inr False"
| "cell_lt CNaT (CTime b) = Inr False"
| "cell_lt CNaT CNaT = Inr False"
| "cell_lt _ _ = Inl TypeError"

text \<open>Indexing a Python list: negative indices count from the end, others raise.\<close>

definition py_index :: "'a list \<Rightarrow> int \<Rightarrow> py_error + 'a" where
  "py_index xs i =
     (if 0 \<le> i \<and> i < int (length xs) then Inr (xs ! nat i)
      else if i < 0 \<and> - int (length xs) \<le> i then Inr (xs ! nat (int (length xs) + i))
      else Inl IndexError)"

text \<open>
  \<^verbatim>\<open>list.index\<close>: the position of the first occurrence. The program calls it only
  on the branch where the element is in the list.
\<close>

fun list_index :: "'a list \<Rightarrow> 'a \<Rightarrow> nat" where
  "list_index [] x = 0"
| "list_index (y # ys) x = (if x = y then 0 else Suc (list_index ys x))"

subsection \<open>The numpy array of the table\<close>

text \<open>
  A two-dimensional object array: its rows, and the number of columns (which an array
  of zero rows still has). Every row of an array has \<open>nd_cols\<close> cells.
\<close>

record ndarray =
  nd_rows :: "cell list list"
  nd_cols :: nat

definition shape :: "ndarray \<Rightarrow> nat \<times> nat" where
  "shape a = (length (nd_rows a), nd_cols a)"

text \<open>\<^verbatim>\<open>array[:, column]\<close>: one column; a negative index counts from the last column.\<close>

definition take_column :: "ndarray \<Rightarrow> int \<Rightarrow> py_error + cell list" where
  "take_column a col =
     (if 0 \<le> col \<and> col < int (nd_cols a)
      then Inr (map (\<lambda>r. r ! nat col) (nd_rows a))
      else if col < 0 \<and> - int (nd_cols a) \<le> col
      then Inr (map (\<lambda>r. r ! nat (int (nd_cols a) + col)) (nd_rows a))
      else Inl IndexError)"

text \<open>\<^verbatim>\<open>array[argsort]\<close>: the rows at the given positions, in that order.\<close>

definition take_rows :: "ndarray \<Rightarrow> nat list \<Rightarrow> ndarray" where
  "take_rows a idx = a\<lparr>nd_rows := map (\<lambda>i. nd_rows a ! i) idx\<rparr>"

text \<open>
  \<^verbatim>\<open>ndarray.argsort()\<close> with numpy's default kind on an object column: numpy's
  indirect quicksort over the index vector \<open>ts\<close> (\<^verbatim>\<open>tosort\<close>), which starts as
  \<open>0, 1, ...\<close>. A range of the vector of more than 16 positions is partitioned
  around the median of three; a range of at most 16 positions is sorted by insertion;
  a range taken from the stack after the depth budget is used up is sorted by
  heapsort. The model follows the loops of the C routine. A comparison that raises
  makes the call raise.

  The insertion sort: each position \<open>i\<close> in turn moves left past the positions whose
  value it is less than. The filled part of the range is kept here from right to
  left, so its head is the neighbour the comparison starts with.
\<close>

fun shift_in :: "cell list \<Rightarrow> nat \<Rightarrow> nat list \<Rightarrow> py_error + nat list" where
  "shift_in v i [] = Inr [i]"
| "shift_in v i (k # ks) =
     (case cell_lt (v ! i) (v ! k) of
        Inl e \<Rightarrow> Inl e
      | Inr True \<Rightarrow> (case shift_in v i ks of Inl e \<Rightarrow> Inl e | Inr ks' \<Rightarrow> Inr (k # ks'))
      | Inr False \<Rightarrow> Inr (i # k # ks))"

fun argsort_loop :: "cell list \<Rightarrow> nat list \<Rightarrow> nat list \<Rightarrow> py_error + nat list" where
  "argsort_loop v [] acc = Inr (rev acc)"
| "argsort_loop v (i # is) acc =
     (case shift_in v i acc of Inl e \<Rightarrow> Inl e | Inr acc' \<Rightarrow> argsort_loop v is acc')"

text \<open>The insertion sort of the positions \<open>pl\<close> to \<open>pr\<close> of the index vector.\<close>

definition ainsertion :: "cell list \<Rightarrow> nat list \<Rightarrow> nat \<Rightarrow> nat \<Rightarrow> py_error + nat list" where
  "ainsertion v ts pl pr =
     (case argsort_loop v (take (Suc pr - pl) (drop pl ts)) [] of
        Inl e \<Rightarrow> Inl e
      | Inr sub \<Rightarrow> Inr (take pl ts @ sub @ drop (Suc pr) ts))"

text \<open>\<^verbatim>\<open>INTP_SWAP\<close>, alone and under the test that the first value is less.\<close>

definition swap :: "nat list \<Rightarrow> nat \<Rightarrow> nat \<Rightarrow> nat list" where
  "swap ts i j = ts[i := ts ! j, j := ts ! i]"

definition swap_if_less :: "cell list \<Rightarrow> nat list \<Rightarrow> nat \<Rightarrow> nat \<Rightarrow> py_error + nat list" where
  "swap_if_less v ts a b =
     (case cell_lt (v ! (ts ! a)) (v ! (ts ! b)) of
        Inl e \<Rightarrow> Inl e
      | Inr c \<Rightarrow> Inr (if c then swap ts a b else ts))"

text \<open>
  The two scans of the partition, \<^verbatim>\<open>do ++pi while (v[*pi] < vp)\<close> and
  \<^verbatim>\<open>do --pj while (vp < v[*pj])\<close>, from the position already stepped to. The C
  loops have no bound: the pivot at \<open>hi\<close> and the median-of-three choice at \<open>lo\<close>
  stop them there; the model writes these two stops out.
\<close>

function scan_up :: "cell list \<Rightarrow> nat list \<Rightarrow> cell \<Rightarrow> nat \<Rightarrow> nat \<Rightarrow> py_error + nat" where
  "scan_up v ts vp pi hi =
     (case cell_lt (v ! (ts ! pi)) vp of
        Inl e \<Rightarrow> Inl e
      | Inr c \<Rightarrow> if c \<and> pi < hi then scan_up v ts vp (Suc pi) hi else Inr pi)"
  by pat_completeness auto
termination
  by (relation "measure (\<lambda>(v, ts, vp, pi, hi). hi - pi)") auto

function scan_down :: "cell list \<Rightarrow> nat list \<Rightarrow> cell \<Rightarrow> nat \<Rightarrow> nat \<Rightarrow> py_error + nat" where
  "scan_down v ts vp pj lo =
     (case cell_lt vp (v ! (ts ! pj)) of
        Inl e \<Rightarrow> Inl e
      | Inr c \<Rightarrow> if c \<and> lo < pj then scan_down v ts vp (pj - 1) lo else Inr pj)"
  by pat_completeness auto
termination
  by (relation "measure (\<lambda>(v, ts, vp, pj, lo). pj - lo)") auto

text \<open>
  The loop of the partition: scan, stop when the scans have met, else swap and go
  on. The first argument bounds the number of rounds; a range of \<open>n\<close> positions needs
  fewer than \<open>n\<close>.
\<close>

fun partition_loop ::
  "nat \<Rightarrow> cell list \<Rightarrow> nat list \<Rightarrow> cell \<Rightarrow> nat \<Rightarrow> nat \<Rightarrow> nat \<Rightarrow> nat \<Rightarrow> py_error + nat list \<times> nat" where
  "partition_loop 0 v ts vp pi pj lo hi = Inr (ts, pi)"
| "partition_loop (Suc n) v ts vp pi pj lo hi =
     (case scan_up v ts vp (Suc pi) hi of
        Inl e \<Rightarrow> Inl e
      | Inr pi' \<Rightarrow>
          (case scan_down v ts vp (pj - 1) lo of
             Inl e \<Rightarrow> Inl e
           | Inr pj' \<Rightarrow>
               if pi' \<ge> pj' then Inr (ts, pi')
               else partition_loop n v (swap ts pi' pj') vp pi' pj' lo hi))"

text \<open>
  The partition of the positions \<open>pl\<close> to \<open>pr\<close>: median of three, the pivot moved
  to \<open>pr - 1\<close>, the loop, the pivot moved to its place \<open>pi\<close>.
\<close>

definition partition :: "cell list \<Rightarrow> nat list \<Rightarrow> nat \<Rightarrow> nat \<Rightarrow> py_error + nat list \<times> nat" where
  "partition v ts pl pr =
     (let pm = pl + (pr - pl) div 2
      in case swap_if_less v ts pm pl of
           Inl e \<Rightarrow> Inl e
         | Inr t1 \<Rightarrow>
             (case swap_if_less v t1 pr pm of
                Inl e \<Rightarrow> Inl e
              | Inr t2 \<Rightarrow>
                  (case swap_if_less v t2 pm pl of
                     Inl e \<Rightarrow> Inl e
                   | Inr t3 \<Rightarrow>
                       (case partition_loop (pr - pl) v (swap t3 pm (pr - 1)) (v ! (t3 ! pm))
                               pl (pr - 1) pl (pr - 1) of
                          Inl e \<Rightarrow> Inl e
                        | Inr (t4, pi) \<Rightarrow> Inr (swap t4 pi (pr - 1), pi)))))"

text \<open>
  numpy's indirect heapsort of a range, given as the list \<open>a\<close> of its \<open>n\<close> positions,
  which the C routine indexes from 1: the sift-down loop with the held index
  \<open>tmp\<close>, the building of the heap, and the extraction of the maxima.
\<close>

definition heap_at :: "nat list \<Rightarrow> nat \<Rightarrow> nat" where
  "heap_at a k = a ! (k - 1)"

definition heap_set :: "nat list \<Rightarrow> nat \<Rightarrow> nat \<Rightarrow> nat list" where
  "heap_set a k x = a[k - 1 := x]"

function sift :: "cell list \<Rightarrow> nat \<Rightarrow> nat list \<Rightarrow> nat \<Rightarrow> nat \<Rightarrow> nat \<Rightarrow> py_error + nat list" where
  "sift v n a tmp i j =
     (if 0 < j \<and> j \<le> n then
        (case (if j < n then cell_lt (v ! heap_at a j) (v ! heap_at a (j + 1)) else Inr False) of
           Inl e \<Rightarrow> Inl e
         | Inr c \<Rightarrow>
             (case cell_lt (v ! tmp) (v ! heap_at a (if c then j + 1 else j)) of
                Inl e \<Rightarrow> Inl e
              | Inr c' \<Rightarrow>
                  if c' then sift v n (heap_set a i (heap_at a (if c then j + 1 else j))) tmp
                               (if c then j + 1 else j) (2 * (if c then j + 1 else j))
                  else Inr (heap_set a i tmp)))
      else Inr (heap_set a i tmp))"
  by pat_completeness auto
termination
  by (relation "measure (\<lambda>(v, n, a, tmp, i, j). Suc n - j)") auto

declare scan_up.simps [simp del] scan_down.simps [simp del] sift.simps [simp del]

fun heapify :: "cell list \<Rightarrow> nat \<Rightarrow> nat \<Rightarrow> nat list \<Rightarrow> py_error + nat list" where
  "heapify v n 0 a = Inr a"
| "heapify v n (Suc l) a =
     (case sift v n a (heap_at a (Suc l)) (Suc l) (2 * Suc l) of
        Inl e \<Rightarrow> Inl e
      | Inr a' \<Rightarrow> heapify v n l a')"

fun heap_extract :: "cell list \<Rightarrow> nat \<Rightarrow> nat list \<Rightarrow> py_error + nat list" where
  "heap_extract v 0 a = Inr a"
| "heap_extract v (Suc m) a =
     (if m = 0 then Inr a
      else (case sift v m (heap_set a (Suc m) (heap_at a 1)) (heap_at a (Suc m)) 1 2 of
              Inl e \<Rightarrow> Inl e
            | Inr a' \<Rightarrow> heap_extract v m a'))"

definition aheapsort :: "cell list \<Rightarrow> nat list \<Rightarrow> nat \<Rightarrow> nat \<Rightarrow> py_error + nat list" where
  "aheapsort v ts pl pr =
     (let n = Suc pr - pl
      in case heapify v n (n div 2) (take n (drop pl ts)) of
           Inl e \<Rightarrow> Inl e
         | Inr a \<Rightarrow>
             (case heap_extract v n a of
                Inl e \<Rightarrow> Inl e
              | Inr sub \<Rightarrow> Inr (take pl ts @ sub @ drop (Suc pr) ts)))"

text \<open>\<^verbatim>\<open>npy_get_msb\<close>: the position of the highest set bit.\<close>

fun get_msb :: "nat \<Rightarrow> nat" where
  "get_msb n = (if n \<le> 1 then 0 else Suc (get_msb (n div 2)))"

text \<open>
  The sort of the positions \<open>pl\<close> to \<open>pr\<close> with depth budget \<open>cdepth\<close>. The C
  routine keeps the larger part of a partitioned range on a stack and goes on with
  the smaller one; only a range taken from the stack (and the whole vector at the
  start) is tested against the budget, which \<open>popped\<close> records. The parts of a range
  are disjoint, so the order in which they are sorted does not show in the result,
  and the model sorts one part after the other. The first argument bounds the depth
  of the nesting; the number of positions is enough, since every part is shorter
  than its range.
\<close>

fun aquicksort ::
  "nat \<Rightarrow> cell list \<Rightarrow> bool \<Rightarrow> int \<Rightarrow> nat \<Rightarrow> nat \<Rightarrow> nat list \<Rightarrow> py_error + nat list" where
  "aquicksort 0 v popped cdepth pl pr ts = Inr ts"
| "aquicksort (Suc n) v popped cdepth pl pr ts =
     (if popped \<and> cdepth < 0 then aheapsort v ts pl pr
      else if pr - pl > 15 then
        (case partition v ts pl pr of
           Inl e \<Rightarrow> Inl e
         | Inr (ts', pi) \<Rightarrow>
             if pi - pl < pr - pi then
               (case aquicksort n v False (cdepth - 1) pl (pi - 1) ts' of
                  Inl e \<Rightarrow> Inl e
                | Inr ts'' \<Rightarrow> aquicksort n v True (cdepth - 1) (pi + 1) pr ts'')
             else
               (case aquicksort n v False (cdepth - 1) (pi + 1) pr ts' of
                  Inl e \<Rightarrow> Inl e
                | Inr ts'' \<Rightarrow> aquicksort n v True (cdepth - 1) pl (pi - 1) ts''))
      else ainsertion v ts pl pr)"

definition argsort :: "cell list \<Rightarrow> py_error + nat list" where
  "argsort v =
     (if v = [] then Inr []
      else aquicksort (length v) v True (2 * int (get_msb (length v))) 0 (length v - 1)
             [0..<length v])"

subsection \<open>SqueueGUIModel\<close>

datatype SortOrder = AscendingOrder | DescendingOrder

datatype ItemDataRole = DisplayRole | EditRole | OtherRole

record QModelIndex =
  isValid :: bool
  row :: int
  column :: int

record SqueueGUIModel =
  array :: ndarray
  headers :: "string list"
  self_r :: nat
  self_c :: nat
  sortby :: int
  sortord :: SortOrder

definition init_model :: "ndarray \<Rightarrow> string list \<Rightarrow> SqueueGUIModel" where
  "init_model arr hdrs =
     \<lparr>array = arr, headers = hdrs, self_r = fst (shape arr), self_c = snd (shape arr),
      sortby = 0, sortord = DescendingOrder\<rparr>"

definition update_model ::
  "ndarray \<Rightarrow> string list \<Rightarrow> SqueueGUIModel \<Rightarrow> py_error option \<times> SqueueGUIModel" where
  "update_model new_array new_headers m =
     (case py_index (headers m) (sortby m) of
        Inl e \<Rightarrow> (Some e, m)
      | Inr old_sortvar \<Rightarrow>
          let m1 = m\<lparr>array := new_array, headers := new_headers,
                     self_r := fst (shape new_array), self_c := snd (shape new_array)\<rparr>;
              m2 = (if old_sortvar \<notin> set new_headers then m1\<lparr>sortby := 0\<rparr>
                    else m1\<lparr>sortby := int (list_index new_headers old_sortvar)\<rparr>);
              column = sortby m2;
              order = sortord m2
          in case take_column (array m2) column of
               Inl e \<Rightarrow> (Some e, m2)
             | Inr v \<Rightarrow>
                 (case argsort v of
                    Inl e \<Rightarrow> (Some e, m2)
                  | Inr idx \<Rightarrow>
                      let idx' = (if order = AscendingOrder then rev idx else idx)
                      in (None, m2\<lparr>array := take_rows (array m2) idx'\<rparr>)))"

definition rowCount :: "SqueueGUIModel \<Rightarrow> nat" where
  "rowCount m = self_r m"

definition columnCount :: "SqueueGUIModel \<Rightarrow> nat" where
  "columnCount m = self_c m"

text \<open>
  \<^verbatim>\<open>setData\<close>: after the index and role checks the method reads
  \<^verbatim>\<open>self.array.values\<close>; the array is a numpy array, which has no such attribute,
  so the statement raises \<^verbatim>\<open>AttributeError\<close> and nothing is stored.
\<close>

definition setData ::
  "QModelIndex \<Rightarrow> cell \<Rightarrow> ItemDataRole \<Rightarrow> SqueueGUIModel \<Rightarrow> (py_error + bool) \<times> SqueueGUIModel" where
  "setData index val role m =
     (if \<not> isValid index then (Inr False, m)
      else if role \<noteq> EditRole then (Inr False, m)
      else if row index < 0 \<or> row index \<ge> int (rowCount m) then (Inr False, m)
      else if column index < 0 \<or> column index \<ge> int (columnCount m) then (Inr False, m)
      else (Inl AttributeError, m))"

definition sort_model ::
  "int \<Rightarrow> SortOrder \<Rightarrow> SqueueGUIModel \<Rightarrow> py_error option \<times> SqueueGUIModel" where
  "sort_model col order m =
     (let m1 = m\<lparr>sortby := col, sortord := order\<rparr>
      in case take_column (array m1) col of
           Inl e \<Rightarrow> (Some e, m1)
         | Inr v \<Rightarrow>
             (case argsort v of
                Inl e \<Rightarrow> (Some e, m1)
              | Inr idx \<Rightarrow>
                  let idx' = (if order = AscendingOrder then rev idx else idx)
                  in (None, m1\<lparr>array := take_rows (array m1) idx'\<rparr>)))"

text \<open>
  \<^verbatim>\<open>array[row, column]\<close> with non-negative indices: the cell, or \<^verbatim>\<open>IndexError\<close>
  beyond the array.
\<close>

definition array_get :: "ndarray \<Rightarrow> nat \<Rightarrow> nat \<Rightarrow> py_error + cell" where
  "array_get a i j =
     (if i < length (nd_rows a) \<and> j < nd_cols a then Inr (nd_rows a ! i ! j)
      else Inl IndexError)"

text \<open>
  \<^verbatim>\<open>int(value.strftime('%s'))\<close> on a timestamp without time zone: the C library
  reads the wall-clock fields as local time and gives the epoch second of that local
  time. With \<open>west w\<close> the number of seconds the local zone is behind UTC at
  wall-clock second \<open>w\<close> (18000 for US Eastern standard time, 0 for UTC), that is the
  timestamp's own second plus the offset.
\<close>

definition strftime_s :: "(int \<Rightarrow> int) \<Rightarrow> int \<Rightarrow> int" where
  "strftime_s west t = t + west t"

text \<open>
  \<^verbatim>\<open>Timestamp.isoformat()\<close> on a whole second:
  \<^verbatim>\<open>YYYY-MM-DDTHH:MM:SS\<close> in the proleptic Gregorian calendar.
\<close>

definition digit :: "nat \<Rightarrow> char" where
  "digit n = ''0123456789'' ! (n mod 10)"

definition two_digits :: "nat \<Rightarrow> string" where
  "two_digits n = [digit (n div 10), digit n]"

definition four_digits :: "nat \<Rightarrow> string" where
  "four_digits n = [digit (n div 1000), digit (n div 100), digit (n div 10), digit n]"

definition civil_from_days :: "int \<Rightarrow> int \<times> int \<times> int" where
  "civil_from_days days =
     (let z = days + 719468;
          era = z div 146097;
          doe = z - era * 146097;
          yoe = (doe - doe div 1460 + doe div 36524 - doe div 146096) div 365;
          y = yoe + era * 400;
          doy = doe - (365 * yoe + yoe div 4 - yoe div 100);
          mp = (5 * doy + 2) div 153;
          d = doy - (153 * mp + 2) div 5 + 1;
          m = (if mp < 10 then mp + 3 else mp - 9)
      in (if m \<le> 2 then y + 1 else y, m, d))"

definition isoformat :: "int \<Rightarrow> string" where
  "isoformat t =
     (let secs = t mod 86400
      in case civil_from_days (t div 86400) of
           (y, m, d) \<Rightarrow>
             four_digits (nat y) @ ''-'' @ two_digits (nat m) @ ''-'' @ two_digits (nat d)
             @ ''T'' @ two_digits (nat (secs div 3600)) @ '':''
             @ two_digits (nat (secs mod 3600 div 60)) @ '':''
             @ two_digits (nat (secs mod 60)))"

text \<open>
  \<^verbatim>\<open>data\<close>: what the view displays for a cell. A Python \<^verbatim>\<open>return None\<close> (and a
  bare \<^verbatim>\<open>return\<close>) is the value \<open>CNone\<close>. \<^verbatim>\<open>Timestamp\<close> and \<^verbatim>\<open>NaT\<close> are the
  cells that are instances of \<^verbatim>\<open>datetime.date\<close>; \<^verbatim>\<open>NaT.strftime\<close> raises
  \<^verbatim>\<open>ValueError\<close>.
\<close>

definition data ::
  "(int \<Rightarrow> int) \<Rightarrow> QModelIndex \<Rightarrow> ItemDataRole \<Rightarrow> SqueueGUIModel \<Rightarrow> py_error + cell" where
  "data west index role m =
     (if \<not> isValid index then Inr CNone
      else if row index < 0 \<or> row index \<ge> int (rowCount m) then Inr CNone
      else if column index < 0 \<or> column index \<ge> int (columnCount m) then Inr CNone
      else if role = DisplayRole then
        (case array_get (array m) (nat (row index)) (nat (column index)) of
           Inl e \<Rightarrow> Inl e
         | Inr (CTime t) \<Rightarrow>
             if strftime_s west t = 18000 then Inr (CStr ''N/A'')
             else Inr (CStr (isoformat t))
         | Inr CNaT \<Rightarrow> Inl ValueError
         | Inr val \<Rightarrow> Inr val)
      else Inr CNone)"

subsection \<open>The pandas frame of a refresh\<close>

text \<open>
  A frame is its column names and its rows. A record of the scheduler's JSON is the
  list of its fields, each field once; a field holds an integer, a string or null.
  pandas' choice of
  a column's storage type (a null in a column of numbers stored as \<^verbatim>\<open>nan\<close>, the
  numbers beside it as floats) is not represented.
\<close>

record dataframe =
  df_columns :: "string list"
  df_rows :: "cell list list"

type_synonym raw_record = "(string \<times> cell) list"

text \<open>
  \<^verbatim>\<open>pd.DataFrame.from_dict(records)\<close>: the columns are the keys of all records in
  order of first appearance; a record without a key gets \<^verbatim>\<open>nan\<close> there.
\<close>

definition record_get :: "raw_record \<Rightarrow> string \<Rightarrow> cell" where
  "record_get job c = (case map_of job c of Some v \<Rightarrow> v | None \<Rightarrow> CNaN)"

definition from_dict :: "raw_record list \<Rightarrow> dataframe" where
  "from_dict jobs =
     (let cols = rev (remdups (rev (concat (map (map fst) jobs))))
      in \<lparr>df_columns = cols, df_rows = map (\<lambda>job. map (record_get job) cols) jobs\<rparr>)"

text \<open>\<^verbatim>\<open>df[cols]\<close> with a list of names: \<^verbatim>\<open>KeyError\<close> when a name is no column.\<close>

definition select_columns :: "dataframe \<Rightarrow> string list \<Rightarrow> py_error + dataframe" where
  "select_columns df cols =
     (if list_all (\<lambda>c. c \<in> set (df_columns df)) cols
      then Inr \<lparr>df_columns = cols,
                df_rows = map (\<lambda>r. map (\<lambda>c. r ! list_index (df_columns df) c) cols) (df_rows df)\<rparr>
      else Inl KeyError)"

text \<open>\<^verbatim>\<open>df[name]\<close>: one column.\<close>

definition get_column :: "dataframe \<Rightarrow> string \<Rightarrow> py_error + cell list" where
  "get_column df name =
     (if name \<in> set (df_columns df)
      then Inr (map (\<lambda>r. r ! list_index (df_columns df) name) (df_rows df))
      else Inl KeyError)"

text \<open>\<^verbatim>\<open>df[mask]\<close> with a boolean column: the rows where the mask is true.\<close>

definition select_rows :: "dataframe \<Rightarrow> bool list \<Rightarrow> dataframe" where
  "select_rows df keep = df\<lparr>df_rows := map fst (filter snd (zip (df_rows df) keep))\<rparr>"

definition isin :: "cell list \<Rightarrow> cell list \<Rightarrow> bool list" where
  "isin col vals = map (\<lambda>v. v \<in> set vals) col"

text \<open>\<^verbatim>\<open>df[name] = values\<close> on an existing column.\<close>

definition set_column :: "dataframe \<Rightarrow> string \<Rightarrow> cell list \<Rightarrow> dataframe" where
  "set_column df name vals =
     df\<lparr>df_rows := map (\<lambda>(r, v). r[list_index (df_columns df) name := v]) (zip (df_rows df) vals)\<rparr>"

text \<open>
  \<^verbatim>\<open>pd.to_datetime(column, unit='s')\<close>: an integer becomes the timestamp at that
  epoch second, when it is within the nanosecond range of \<^verbatim>\<open>Timestamp\<close>; null and
  \<^verbatim>\<open>nan\<close> become \<^verbatim>\<open>NaT\<close>. A string raises \<^verbatim>\<open>ValueError\<close> here (pandas
  converts the strings that spell a number; the scheduler gives these fields as
  integers, and such strings are not represented).
\<close>

fun to_datetime1 :: "cell \<Rightarrow> py_error + cell" where
  "to_datetime1 (CInt n) =
     (if - 9223372036 \<le> n \<and> n \<le> 9223372036 then Inr (CTime n) else Inl OutOfBoundsDatetime)"
| "to_datetime1 (CStr s) = Inl ValueError"
| "to_datetime1 CNone = Inr CNaT"
| "to_datetime1 CNaN = Inr CNaT"
| "to_datetime1 (CTime t) = Inr (CTime t)"
| "to_datetime1 CNaT = Inr CNaT"

fun to_datetime :: "cell list \<Rightarrow> py_error + cell list" where
  "to_datetime [] = Inr []"
| "to_datetime (x # xs) =
     (case to_datetime1 x of
        Inl e \<Rightarrow> Inl e
      | Inr y \<Rightarrow> (case to_datetime xs of Inl e \<Rightarrow> Inl e | Inr ys \<Rightarrow> Inr (y # ys)))"

text \<open>\<^verbatim>\<open>np.array(df.values)\<close>.\<close>

definition df_values :: "dataframe \<Rightarrow> ndarray" where
  "df_values df = \<lparr>nd_rows = df_rows df, nd_cols = length (df_columns df)\<rparr>"

subsection \<open>SQGUIMainWindow\<close>

definition SQUEUE_TIMEVAR :: "string list" where
  "SQUEUE_TIMEVAR =
     [''accrue_time'', ''eligible_time'', ''end_time'', ''last_sched_evaluation'',
      ''start_time'', ''submit_time'']"

record QTimer =
  isActive :: bool
  interval :: int

definition timer_start :: "int \<Rightarrow> QTimer \<Rightarrow> QTimer" where
  "timer_start msec t = t\<lparr>isActive := True, interval := msec\<rparr>"

definition timer_stop :: "QTimer \<Rightarrow> QTimer" where
  "timer_stop t = t\<lparr>isActive := False\<rparr>"

definition timer_setInterval :: "int \<Rightarrow> QTimer \<Rightarrow> QTimer" where
  "timer_setInterval msec t = t\<lparr>interval := msec\<rparr>"

text \<open>
  The window: the user name, the columns, the frame and the table model, the refresh
  counter, the refresh rate in milliseconds and the timer, and of the widgets what
  the program reads back: whether the two check boxes are checked and the text of the
  rate field.
\<close>

record SQGUIMainWindow =
  uname :: string
  sqcols :: "string list"
  sqdata :: dataframe
  sqmodel :: SqueueGUIModel
  arefcnt :: int
  arefrte :: int
  areftmr :: QTimer
  w_arefbut :: bool
  w_arefrte :: string
  w_selffil :: bool

definition init_window :: "string \<Rightarrow> SQGUIMainWindow" where
  "init_window user =
     (let cols = [''job_id'', ''job_state'', ''user_name'', ''qos'', ''node_count'', ''cpus'',
                  ''start_time''];
          df = \<lparr>df_columns = cols, df_rows = []\<rparr>
      in \<lparr>uname = user, sqcols = cols, sqdata = df,
          sqmodel = init_model (df_values df) cols,
          arefcnt = 0, arefrte = 1000,
          areftmr = \<lparr>isActive = False, interval = 0\<rparr>,
          w_arefbut = False, w_arefrte = ''1'', w_selffil = False\<rparr>)"

text \<open>
  Python's \<^verbatim>\<open>int(text)\<close> on a string: optional white space around an optional sign
  and decimal digits; \<open>None\<close> is \<^verbatim>\<open>ValueError\<close>. (Underscores between digits and
  non-ASCII digits, which \<^verbatim>\<open>int\<close> also reads, are not represented.)
\<close>

definition is_space :: "char \<Rightarrow> bool" where
  "is_space ch = (ch \<in> set [CHR '' '', CHR 0x09, CHR 0x0A, CHR 0x0B, CHR 0x0C, CHR 0x0D])"

definition strip :: "string \<Rightarrow> string" where
  "strip s = rev (dropWhile is_space (rev (dropWhile is_space s)))"

definition digit_of :: "char \<Rightarrow> nat option" where
  "digit_of ch = (if ch \<in> set ''0123456789'' then Some (list_index ''0123456789'' ch) else None)"

fun digits_value :: "nat \<Rightarrow> string \<Rightarrow> nat option" where
  "digits_value acc [] = Some acc"
| "digits_value acc (ch # cs) =
     (case digit_of ch of None \<Rightarrow> None | Some d \<Rightarrow> digits_value (10 * acc + d) cs)"

definition py_int :: "string \<Rightarrow> int option" where
  "py_int s =
     (case strip s of
        [] \<Rightarrow> None
      | ch # cs \<Rightarrow>
          if ch = CHR ''-'' then (if cs = [] then None else map_option (\<lambda>n. - int n) (digits_value 0 cs))
          else if ch = CHR ''+'' then (if cs = [] then None else map_option int (digits_value 0 cs))
          else map_option int (digits_value 0 (ch # cs)))"

text \<open>
  The body of the \<^verbatim>\<open>try\<close> in \<^verbatim>\<open>change_autorefresh_rate\<close>; \<open>None\<close> when
  \<^verbatim>\<open>int\<close> or the \<^verbatim>\<open>assert\<close> raises.
\<close>

definition try_rate :: "string \<Rightarrow> SQGUIMainWindow \<Rightarrow> SQGUIMainWindow option" where
  "try_rate new_rate w =
     (case py_int new_rate of
        None \<Rightarrow> None
      | Some inew_rate \<Rightarrow>
          if inew_rate > 0 \<and> inew_rate < 10000
          then Some (let w1 = w\<lparr>arefrte := inew_rate * 1000\<rparr>
                     in w1\<lparr>areftmr := timer_setInterval (arefrte w1) (areftmr w1)\<rparr>)
          else None)"

text \<open>
  \<^verbatim>\<open>change_autorefresh_rate\<close> is the slot of the rate field's \<^verbatim>\<open>textChanged\<close>
  signal. Its \<^verbatim>\<open>except\<close> branch calls \<^verbatim>\<open>setText(str(1))\<close> on that field; when
  this changes the field's text, Qt emits \<^verbatim>\<open>textChanged('1')\<close> and the slot runs
  again, inside the call, with \<^verbatim>\<open>'1'\<close>.
\<close>

function change_autorefresh_rate :: "string \<Rightarrow> SQGUIMainWindow \<Rightarrow> SQGUIMainWindow" where
  "change_autorefresh_rate new_rate w =
     (case try_rate new_rate w of
        Some w' \<Rightarrow> w'
      | None \<Rightarrow>
          if w_arefrte w = ''1'' then w
          else change_autorefresh_rate ''1'' (w\<lparr>w_arefrte := ''1''\<rparr>))"
  by pat_completeness auto
termination
  by (relation "measure (\<lambda>(new_rate, w). if w_arefrte w = ''1'' then 0 else 1)") auto

declare change_autorefresh_rate.simps [simp del]

definition toggle_autorefresh :: "SQGUIMainWindow \<Rightarrow> SQGUIMainWindow" where
  "toggle_autorefresh w =
     (if w_arefbut w then
        (let w1 = w\<lparr>arefcnt := 0\<rparr>;
             w2 = change_autorefresh_rate (w_arefrte w1) w1
         in w2\<lparr>areftmr := timer_start (arefrte w2) (areftmr w2)\<rparr>)
      else w\<lparr>areftmr := timer_stop (areftmr w)\<rparr>)"

text \<open>
  \<^verbatim>\<open>refresh\<close>, statement by statement. Each statement takes the window and gives
  the exception it raises, if any, with the window as it is then; the next statement
  runs only after a statement that did not raise.
\<close>

definition and_then ::
  "py_error option \<times> 's \<Rightarrow> ('s \<Rightarrow> py_error option \<times> 's) \<Rightarrow> py_error option \<times> 's" where
  "and_then res f = (case res of (Some e, s) \<Rightarrow> (Some e, s) | (None, s) \<Rightarrow> f s)"

text \<open>
  Fetching: the argument is what
  \<^verbatim>\<open>json.loads(subprocess.run(['squeue', '--json'], ...))['jobs']\<close> gives, the records or
  the exception of the failed command or of the decoding.
\<close>

definition fetch_squeue ::
  "py_error + raw_record list \<Rightarrow> SQGUIMainWindow \<Rightarrow> py_error option \<times> SQGUIMainWindow" where
  "fetch_squeue fetched w =
     (case fetched of
        Inl e \<Rightarrow> (Some e, w)
      | Inr jobs \<Rightarrow> (None, w\<lparr>sqdata := from_dict jobs\<rparr>))"

definition filter_columns :: "SQGUIMainWindow \<Rightarrow> py_error option \<times> SQGUIMainWindow" where
  "filter_columns w =
     (case select_columns (sqdata w) (sqcols w) of
        Inl e \<Rightarrow> (Some e, w)
      | Inr df \<Rightarrow> (None, w\<lparr>sqdata := df\<rparr>))"

definition filter_state :: "SQGUIMainWindow \<Rightarrow> py_error option \<times> SQGUIMainWindow" where
  "filter_state w =
     (case get_column (sqdata w) ''job_state'' of
        Inl e \<Rightarrow> (Some e, w)
      | Inr st \<Rightarrow>
          (None, w\<lparr>sqdata := select_rows (sqdata w) (isin st [CStr ''RUNNING'', CStr ''PENDING''])\<rparr>))"

definition filter_self :: "SQGUIMainWindow \<Rightarrow> py_error option \<times> SQGUIMainWindow" where
  "filter_self w =
     (if w_selffil w then
        (case get_column (sqdata w) ''user_name'' of
           Inl e \<Rightarrow> (Some e, w)
         | Inr un \<Rightarrow>
             (None, w\<lparr>sqdata := select_rows (sqdata w) (map (\<lambda>v. v = CStr (uname w)) un)\<rparr>))
      else (None, w))"

fun convert_times :: "string list \<Rightarrow> SQGUIMainWindow \<Rightarrow> py_error option \<times> SQGUIMainWindow" where
  "convert_times [] w = (None, w)"
| "convert_times (col # cols) w =
     (if col \<in> set SQUEUE_TIMEVAR then
        (case get_column (sqdata w) col of
           Inl e \<Rightarrow> (Some e, w)
         | Inr v \<Rightarrow>
             (case to_datetime v of
                Inl e \<Rightarrow> (Some e, w)
              | Inr v' \<Rightarrow> convert_times cols (w\<lparr>sqdata := set_column (sqdata w) col v'\<rparr>)))
      else convert_times cols w)"

definition update_table :: "SQGUIMainWindow \<Rightarrow> py_error option \<times> SQGUIMainWindow" where
  "update_table w =
     (case update_model (df_values (sqdata w)) (sqcols w) (sqmodel w) of
        (e, m') \<Rightarrow> (e, w\<lparr>sqmodel := m'\<rparr>))"

text \<open>The first statements of \<^verbatim>\<open>refresh\<close>, from the fetch to the two row filters.\<close>

definition fetch_and_filter ::
  "py_error + raw_record list \<Rightarrow> SQGUIMainWindow \<Rightarrow> py_error option \<times> SQGUIMainWindow" where
  "fetch_and_filter fetched w =
     and_then (and_then (and_then (fetch_squeue fetched w) filter_columns) filter_state) filter_self"

definition refresh ::
  "py_error + raw_record list \<Rightarrow> SQGUIMainWindow \<Rightarrow> py_error option \<times> SQGUIMainWindow" where
  "refresh fetched w =
     and_then (and_then
       (fetch_and_filter fetched (w\<lparr>arefcnt := arefcnt w + 1\<rparr>))
       (\<lambda>w. convert_times (sqcols w) w))
       update_table"

subsection \<open>Notions used in the statements and proofs\<close>

text \<open>
  A column the program can order: all of its cells integers, all strings or all
  timestamps. On such a column \<open>cell_lt\<close> never raises and agrees with the order of
  \<open>cell_key\<close>.
\<close>

fun is_int :: "cell \<Rightarrow> bool" where
  "is_int (CInt n) = True"
| "is_int _ = False"

fun is_str :: "cell \<Rightarrow> bool" where
  "is_str (CStr s) = True"
| "is_str _ = False"

fun is_time :: "cell \<Rightarrow> bool" where
  "is_time (CTime t) = True"
| "is_time _ = False"

definition plain_column :: "cell list \<Rightarrow> bool" where
  "plain_column v = (list_all is_int v \<or> list_all is_str v \<or> list_all is_time v)"

fun cell_key :: "cell \<Rightarrow> int \<times> string" where
  "cell_key (CInt n) = (n, [])"
| "cell_key (CStr s) = (0, s)"
| "cell_key (CTime t) = (t, [])"
| "cell_key CNone = (0, [])"
| "cell_key CNaN = (0, [])"
| "cell_key CNaT = (0, [])"

text \<open>The step of \<open>shift_in\<close> over a key into a linear order.\<close>

fun pshift :: "('a \<Rightarrow> 'k::linorder) \<Rightarrow> 'a \<Rightarrow> 'a list \<Rightarrow> 'a list" where
  "pshift K x [] = [x]"
| "pshift K x (y # ys) = (if K x < K y then y # pshift K x ys else x # y # ys)"

text \<open>
  A table of three jobs on the window's seven columns, with \<^verbatim>\<open>cpus\<close> (column 5)
  4, 1 and 2 in this order.
\<close>

definition job_row :: "int \<Rightarrow> int \<Rightarrow> cell list" where
  "job_row jid ncpu =
     [CInt jid, CStr ''RUNNING'', CStr ''alice'', CStr ''normal'', CInt 1, CInt ncpu, CTime 1700000000]"

definition cpus_412 :: SqueueGUIModel where
  "cpus_412 =
     \<lparr>array = \<lparr>nd_rows = [job_row 1 4, job_row 2 1, job_row 3 2], nd_cols = 7\<rparr>,
      headers = [''job_id'', ''job_state'', ''user_name'', ''qos'', ''node_count'', ''cpus'',
                 ''start_time''],
      self_r = 3, self_c = 7, sortby = 0, sortord = DescendingOrder\<rparr>"

definition cpus_44 :: SqueueGUIModel where
  "cpus_44 = cpus_412\<lparr>array := \<lparr>nd_rows = [job_row 1 4, job_row 2 4], nd_cols = 7\<rparr>, self_r := 2\<rparr>"

text \<open>A table of \<open>n\<close> jobs, numbered from 0, job \<open>i\<close> with \<open>i mod 3\<close> as its \<^verbatim>\<open>cpus\<close>.\<close>

definition cpus_cycle :: "nat \<Rightarrow> SqueueGUIModel" where
  "cpus_cycle n =
     cpus_412\<lparr>array := \<lparr>nd_rows = map (\<lambda>i. job_row (int i) (int (i mod 3))) [0..<n], nd_cols = 7\<rparr>,
              self_r := n\<rparr>"

text \<open>
  The rows in the order \<^verbatim>\<open>sort\<close> gives them on a plain column \<open>j\<close>: the stable
  sort by the column, reversed under \<^verbatim>\<open>Qt.AscendingOrder\<close>.
\<close>

definition sorted_rows :: "nat \<Rightarrow> SortOrder \<Rightarrow> cell list list \<Rightarrow> cell list list" where
  "sorted_rows j ord rows =
     (if ord = AscendingOrder then rev (sort_key (\<lambda>r. cell_key (r ! j)) rows)
      else sort_key (\<lambda>r. cell_key (r ! j)) rows)"


text \<open>
  The table of three jobs when \<^verbatim>\<open>cpus\<close> is the sort column, and a frame of two
  columns, \<^verbatim>\<open>cpus\<close> first, to replace it with.
\<close>

definition by_cpus :: SqueueGUIModel where
  "by_cpus = cpus_412\<lparr>sortby := 5\<rparr>"

definition two_columns :: ndarray where
  "two_columns = \<lparr>nd_rows = [[CInt 8, CInt 11], [CInt 2, CInt 12]], nd_cols = 2\<rparr>"

text \<open>The table as the window builds it, before any refresh.\<close>

definition empty_table :: SqueueGUIModel where
  "empty_table = init_model \<lparr>nd_rows = [], nd_cols = 7\<rparr> (headers cpus_412)"

text \<open>The frame that holds the given columns of the given records.\<close>

definition frame_of :: "string list \<Rightarrow> raw_record list \<Rightarrow> dataframe" where
  "frame_of cols jobs = \<lparr>df_columns = cols, df_rows = map (\<lambda>job. map (record_get job) cols) jobs\<rparr>"

text \<open>
  Records of the scheduler: a running job of alice started at the given epoch second
  (with a field the window does not show), and a completed job of bob.
\<close>

definition job_started :: "int \<Rightarrow> raw_record" where
  "job_started t =
     [(''account'', CStr ''lab''), (''job_id'', CInt 1), (''job_state'', CStr ''RUNNING''),
      (''user_name'', CStr ''alice''), (''qos'', CStr ''normal''), (''node_count'', CInt 1),
      (''cpus'', CInt 4), (''start_time'', CInt t)]"

definition job_done :: raw_record where
  "job_done =
     [(''account'', CStr ''lab''), (''job_id'', CInt 2), (''job_state'', CStr ''COMPLETED''),
      (''user_name'', CStr ''bob''), (''qos'', CStr ''normal''), (''node_count'', CInt 1),
      (''cpus'', CInt 4), (''start_time'', CInt 1700000000)]"

text \<open>A record without the \<^verbatim>\<open>cpus\<close> field.\<close>

definition job_no_cpus :: raw_record where
  "job_no_cpus =
     [(''job_id'', CInt 3), (''job_state'', CStr ''PENDING''), (''user_name'', CStr ''alice''),
      (''qos'', CStr ''normal''), (''node_count'', CInt 1), (''start_time'', CInt 0)]"

text \<open>Two local zones: UTC, and a zone five hours behind UTC (US Eastern standard time).\<close>

definition utc :: "int \<Rightarrow> int" where
  "utc w = 0"

definition utc_minus_5 :: "int \<Rightarrow> int" where
  "utc_minus_5 w = 18000"

text \<open>
  The window and its table after a refresh of the new window that fetched the given
  records, and what the table then shows as start time of its first job, for the one
  job started at raw second \<open>t\<close>.
\<close>

definition start_index :: QModelIndex where
  "start_index = \<lparr>isValid = True, row = 0, column = 6\<rparr>"

definition table_window :: "raw_record list \<Rightarrow> SQGUIMainWindow" where
  "table_window jobs = snd (refresh (Inr jobs) (init_window ''alice''))"

definition table_after :: "raw_record list \<Rightarrow> SqueueGUIModel" where
  "table_after jobs = sqmodel (table_window jobs)"

definition shown_start :: "(int \<Rightarrow> int) \<Rightarrow> int \<Rightarrow> py_error + cell" where
  "shown_start west t = data west start_index DisplayRole (table_after [job_started t])"

text \<open>
  The window with auto refresh running every 5 seconds, at the moment the user has
  replaced the text of the rate field by \<^verbatim>\<open>0\<close>.
\<close>

definition rate_5 :: SQGUIMainWindow where
  "rate_5 = (init_window ''alice'')
     \<lparr>arefrte := 5000, areftmr := \<lparr>isActive = True, interval = 5000\<rparr>,
      w_arefbut := True, w_arefrte := ''0''\<rparr>"

section \<open>The ordering of a column\<close>

lemma cell_lt_plain:
  "plain_column v \<Longrightarrow> a \<in> set v \<Longrightarrow> b \<in> set v \<Longrightarrow> cell_lt a b = Inr (cell_key a < cell_key b)"
  unfolding plain_column_def list_all_iff
  by (cases a; cases b) auto

lemma cell_key_inj_plain:
  "plain_column v \<Longrightarrow> a \<in> set v \<Longrightarrow> b \<in> set v \<Longrightarrow> cell_key a = cell_key b \<longleftrightarrow> a = b"
  unfolding plain_column_def list_all_iff
  by (cases a; cases b) auto

lemma shift_in_pure:
  "plain_column v \<Longrightarrow> i < length v \<Longrightarrow> \<forall>k\<in>set ks. k < length v \<Longrightarrow>
   shift_in v i ks = Inr (pshift (\<lambda>i. cell_key (v ! i)) i ks)"
  by (induction ks) (simp_all add: cell_lt_plain)

lemma set_pshift: "set (pshift K x acc) = insert x (set acc)"
  by (induction acc) auto

lemma mset_pshift: "mset (pshift K x acc) = add_mset x (mset acc)"
  by (induction acc) auto

lemma argsort_loop_pure:
  "plain_column v \<Longrightarrow> \<forall>k\<in>set is. k < length v \<Longrightarrow> \<forall>k\<in>set acc. k < length v \<Longrightarrow>
   argsort_loop v is acc = Inr (rev (fold (pshift (\<lambda>i. cell_key (v ! i))) is acc))"
  by (induction "is" arbitrary: acc) (simp_all add: shift_in_pure set_pshift)

lemma mset_fold_pshift: "mset (fold (pshift K) xs acc) = mset xs + mset acc"
  by (induction xs arbitrary: acc) (simp_all add: mset_pshift)

lemma filter_pshift:
  "filter (\<lambda>y. K y = k) (pshift K x acc) =
     (if K x = k then x # filter (\<lambda>y. K y = k) acc else filter (\<lambda>y. K y = k) acc)"
  by (induction acc) auto

lemma filter_fold_pshift:
  "filter (\<lambda>y. K y = k) (fold (pshift K) xs acc) =
     rev (filter (\<lambda>y. K y = k) xs) @ filter (\<lambda>y. K y = k) acc"
  by (induction xs arbitrary: acc) (simp_all add: filter_pshift)

lemma sorted_pshift:
  "sorted (rev (map K acc)) \<Longrightarrow> sorted (rev (map K (pshift K x acc)))"
  by (induction acc) (auto simp: sorted_append set_pshift)

lemma sorted_fold_pshift:
  "sorted (rev (map K acc)) \<Longrightarrow> sorted (rev (map K (fold (pshift K) xs acc)))"
  by (induction xs arbitrary: acc) (simp_all add: sorted_pshift)

lemma fold_pshift_sort_key: "rev (fold (pshift K) xs []) = sort_key K xs"
proof (rule sym, rule properties_for_sort_key)
  show "mset (rev (fold (pshift K) xs [])) = mset xs"
    by (simp add: mset_fold_pshift)
  show "sorted (map K (rev (fold (pshift K) xs [])))"
    using sorted_fold_pshift [of K "[]" xs] by (simp add: rev_map)
  fix k
  have "filter (\<lambda>y. K y = K k) (rev (fold (pshift K) xs [])) = filter (\<lambda>y. K y = K k) xs"
    by (simp add: filter_fold_pshift flip: rev_filter)
  then show "filter (\<lambda>x. K k = K x) (rev (fold (pshift K) xs [])) = filter (\<lambda>x. K k = K x) xs"
    by (simp add: eq_commute)
qed

text \<open>On at most 16 elements the sort is the insertion sort of the whole vector.\<close>

lemma argsort_small:
  assumes "length v \<le> 16"
  shows "argsort v = argsort_loop v [0..<length v] []"
proof (cases v)
  case Nil
  then show ?thesis by (simp add: argsort_def)
next
  case (Cons x xs)
  then obtain n where n: "length v = Suc n"
    by simp
  have "aquicksort (Suc n) v True (2 * int (get_msb (Suc n))) 0 n [0..<Suc n]
      = ainsertion v [0..<Suc n] 0 n"
    using assms n by simp
  also have "\<dots> = argsort_loop v [0..<Suc n] []"
    by (simp add: ainsertion_def split: sum.split)
  finally show ?thesis
    using Cons n by (simp add: argsort_def)
qed

lemma argsort_plain:
  assumes "plain_column v" and "length v \<le> 16"
  shows "argsort v = Inr (sort_key (\<lambda>i. cell_key (v ! i)) [0..<length v])"
  unfolding argsort_small [OF assms(2)] using assms(1)
  by (simp add: argsort_loop_pure fold_pshift_sort_key)

lemma take_sorted_indices:
  "map (\<lambda>i. rows ! i) (sort_key (\<lambda>i. K (map f rows ! i)) [0..<length rows]) = sort_key (\<lambda>row. K (f row)) rows"
proof (rule sym, rule properties_for_sort_key)
  let ?idx = "sort_key (\<lambda>i. K (map f rows ! i)) [0..<length rows]"
  have in_range: "i < length rows" if "i \<in> set ?idx" for i
    using that by simp
  show "mset (map (\<lambda>i. rows ! i) ?idx) = mset rows"
  proof -
    have "mset (map (\<lambda>i. rows ! i) ?idx) = image_mset (\<lambda>i. rows ! i) (mset [0..<length rows])"
      by simp
    also have "\<dots> = mset (map (\<lambda>i. rows ! i) [0..<length rows])"
      by simp
    also have "\<dots> = mset rows"
      by (simp add: map_nth)
    finally show ?thesis .
  qed
  have "sorted (map (\<lambda>i. K (map f rows ! i)) ?idx)"
    by (rule sorted_sort_key)
  moreover have "map (\<lambda>i. K (map f rows ! i)) ?idx = map (\<lambda>row. K (f row)) (map (\<lambda>i. rows ! i) ?idx)"
    using in_range by simp
  ultimately show "sorted (map (\<lambda>row. K (f row)) (map (\<lambda>i. rows ! i) ?idx))"
    by simp
  fix r
  let ?P = "\<lambda>x. K (f r) = K (f x)"
  let ?Q = "\<lambda>i. K (map f rows ! i) = K (f r)"
  have PQ: "filter (\<lambda>i. ?P (rows ! i)) xs = filter ?Q xs" if "set xs \<subseteq> {0..<length rows}" for xs
    using that by (intro filter_cong refl) auto
  have "filter ?P (map (\<lambda>i. rows ! i) ?idx) = map (\<lambda>i. rows ! i) (filter (\<lambda>i. ?P (rows ! i)) ?idx)"
    by (simp add: filter_map comp_def)
  also have "\<dots> = map (\<lambda>i. rows ! i) (filter ?Q ?idx)"
    by (subst PQ) simp_all
  also have "\<dots> = map (\<lambda>i. rows ! i) (filter ?Q [0..<length rows])"
    by (simp only: sort_key_stable)
  also have "\<dots> = map (\<lambda>i. rows ! i) (filter (\<lambda>i. ?P (rows ! i)) [0..<length rows])"
    by (subst PQ) simp_all
  also have "\<dots> = filter ?P (map (\<lambda>i. rows ! i) [0..<length rows])"
    by (simp add: filter_map comp_def)
  also have "\<dots> = filter ?P rows"
    by (simp add: map_nth)
  finally show "filter ?P (map (\<lambda>i. rows ! i) ?idx) = filter ?P rows" .
qed

lemma take_rows_argsort:
  assumes "plain_column (map f rows)" and "length rows \<le> 16"
  shows "argsort (map f rows) = Inr idx \<Longrightarrow> map (\<lambda>i. rows ! i) idx = sort_key (\<lambda>r. cell_key (f r)) rows"
  using argsort_plain [OF assms(1)] assms(2) take_sorted_indices [of rows cell_key f]
  by simp

lemma argsort_plain_ok:
  "plain_column v \<Longrightarrow> length v \<le> 16 \<Longrightarrow> \<exists>idx. argsort v = Inr idx"
  by (simp add: argsort_plain)

lemma sort_model_plain:
  assumes "0 \<le> col" "col < int (nd_cols (array m))"
    and "plain_column (map (\<lambda>r. r ! nat col) (nd_rows (array m)))"
    and "length (nd_rows (array m)) \<le> 16"
  shows "sort_model col ord m =
     (None, m\<lparr>sortby := col, sortord := ord,
              array := (array m)\<lparr>nd_rows := sorted_rows (nat col) ord (nd_rows (array m))\<rparr>\<rparr>)"
proof -
  let ?f = "\<lambda>r::cell list. r ! nat col"
  obtain idx where idx: "argsort (map ?f (nd_rows (array m))) = Inr idx"
    using argsort_plain_ok [OF assms(3)] assms(4) by auto
  have rows: "map (\<lambda>i. nd_rows (array m) ! i) idx = sort_key (\<lambda>r. cell_key (?f r)) (nd_rows (array m))"
    using take_rows_argsort [OF assms(3,4) idx] .
  show ?thesis
    using assms(1,2) idx rows
    by (simp add: sort_model_def take_column_def take_rows_def sorted_rows_def Let_def flip: rev_map)
qed




lemma mset_sorted_rows: "mset (sorted_rows j ord rows) = mset rows"
  by (simp add: sorted_rows_def)


lemma filter_sort_key_cell:
  assumes "plain_column (map (\<lambda>r. r ! j) rows)"
  shows "filter (\<lambda>r. r ! j = k) (sort_key (\<lambda>r. cell_key (r ! j)) rows) = filter (\<lambda>r. r ! j = k) rows"
proof (cases "k \<in> set (map (\<lambda>r. r ! j) rows)")
  case True
  have eq: "(r ! j = k) = (cell_key (r ! j) = cell_key k)" if "r \<in> set rows" for r
    using cell_key_inj_plain [OF assms _ True, of "r ! j"] that by auto
  have "filter (\<lambda>r. r ! j = k) (sort_key (\<lambda>r. cell_key (r ! j)) rows)
      = filter (\<lambda>r. cell_key (r ! j) = cell_key k) (sort_key (\<lambda>r. cell_key (r ! j)) rows)"
    by (rule filter_cong) (simp_all add: eq)
  also have "\<dots> = filter (\<lambda>r. cell_key (r ! j) = cell_key k) rows"
    by (rule sort_key_stable)
  also have "\<dots> = filter (\<lambda>r. r ! j = k) rows"
    by (rule filter_cong) (simp_all add: eq)
  finally show ?thesis .
next
  case False
  then have "\<forall>r\<in>set rows. r ! j \<noteq> k"
    by auto
  then show ?thesis
    by (simp add: filter_empty_conv [THEN iffD2])
qed

lemma filter_sorted_rows:
  assumes "plain_column (map (\<lambda>r. r ! j) rows)"
  shows "filter (\<lambda>r. r ! j = k) (sorted_rows j ord rows) =
     (if ord = AscendingOrder then rev (filter (\<lambda>r. r ! j = k) rows) else filter (\<lambda>r. r ! j = k) rows)"
  by (simp add: sorted_rows_def filter_sort_key_cell [OF assms] flip: rev_filter)





lemma sort_model_rows:
  assumes "0 \<le> col" and "col < int (nd_cols (array m))"
    and "plain_column (map (\<lambda>r. r ! nat col) (nd_rows (array m)))"
    and "length (nd_rows (array m)) \<le> 16"
    and "argsort (map (\<lambda>r. r ! nat col) (nd_rows (array m))) = Inr idx"
  shows "sort_model col ord m =
     (None, m\<lparr>sortby := col, sortord := ord,
              array := take_rows (array m) (if ord = AscendingOrder then rev idx else idx)\<rparr>)"
  using assms(1,2,5) by (simp add: sort_model_def take_column_def Let_def)

section \<open>The table model\<close>

lemma list_index_less: "x \<in> set xs \<Longrightarrow> list_index xs x < length xs"
  by (induction xs) auto

lemma nth_list_index: "x \<in> set xs \<Longrightarrow> xs ! list_index xs x = x"
  by (induction xs) auto

lemma py_index_list_index:
  "x \<in> set xs \<Longrightarrow> py_index xs (int (list_index xs x)) = Inr x"
  by (simp add: py_index_def list_index_less nth_list_index)

lemma update_model_as_sort:
  assumes "py_index (headers m) (sortby m) = Inr old"
  shows "update_model A H m =
     sort_model (if old \<notin> set H then 0 else int (list_index H old)) (sortord m)
       (m\<lparr>array := A, headers := H, self_r := length (nd_rows A), self_c := nd_cols A\<rparr>)"
  using assms
  by (simp add: update_model_def sort_model_def shape_def Let_def split: sum.split)

lemma sort_model_state:
  "sortby (snd (sort_model col ord m)) = col"
  "sortord (snd (sort_model col ord m)) = ord"
  "headers (snd (sort_model col ord m)) = headers m"
  "self_r (snd (sort_model col ord m)) = self_r m"
  "self_c (snd (sort_model col ord m)) = self_c m"
  by (simp_all add: sort_model_def Let_def split: sum.splits)



lemma shift_in_length: "shift_in v i ks = Inr ks' \<Longrightarrow> length ks' = Suc (length ks)"
  by (induction ks arbitrary: ks') (auto split: sum.splits bool.splits)

lemma argsort_loop_length:
  "argsort_loop v is acc = Inr idx \<Longrightarrow> length idx = length is + length acc"
  by (induction "is" arbitrary: acc) (auto split: sum.splits dest: shift_in_length)

text \<open>
  The sort keeps the number of positions, whichever of the three sorts a range goes
  to: the scans of a partition stay inside its range, so its two parts lie inside
  the range too.
\<close>

lemma length_swap: "length (swap ts i j) = length ts"
  by (simp add: swap_def)

lemma swap_if_less_length: "swap_if_less v ts a b = Inr t \<Longrightarrow> length t = length ts"
  by (auto simp: swap_if_less_def length_swap split: sum.splits)

lemma scan_up_bounds: "scan_up v ts vp pi hi = Inr p \<Longrightarrow> pi \<le> p \<and> p \<le> max pi hi"
proof (induction v ts vp pi hi rule: scan_up.induct)
  case (1 v ts vp pi hi)
  from "1.prems" obtain c where c: "cell_lt (v ! (ts ! pi)) vp = Inr c"
    and rest: "(if c \<and> pi < hi then scan_up v ts vp (Suc pi) hi else Inr pi) = Inr p"
    by (subst (asm) scan_up.simps) (simp split: sum.splits)
  show ?case
  proof (cases "c \<and> pi < hi")
    case True
    with rest have "scan_up v ts vp (Suc pi) hi = Inr p" by simp
    from "1.IH" [OF c True this] True show ?thesis by auto
  next
    case False
    with rest show ?thesis by auto
  qed
qed

lemma scan_down_bounds: "scan_down v ts vp pj lo = Inr p \<Longrightarrow> p \<le> pj"
proof (induction v ts vp pj lo rule: scan_down.induct)
  case (1 v ts vp pj lo)
  from "1.prems" obtain c where c: "cell_lt vp (v ! (ts ! pj)) = Inr c"
    and rest: "(if c \<and> lo < pj then scan_down v ts vp (pj - 1) lo else Inr pj) = Inr p"
    by (subst (asm) scan_down.simps) (simp split: sum.splits)
  show ?case
  proof (cases "c \<and> lo < pj")
    case True
    with rest have "scan_down v ts vp (pj - 1) lo = Inr p" by simp
    from "1.IH" [OF c True this] show ?thesis by simp
  next
    case False
    with rest show ?thesis by auto
  qed
qed

lemma partition_loop_result:
  "partition_loop n v ts vp pi pj lo hi = Inr (t, p) \<Longrightarrow> pi < pj \<Longrightarrow> pj \<le> hi \<Longrightarrow>
   length t = length ts \<and> pi \<le> p \<and> p \<le> hi"
proof (induction n arbitrary: ts pi pj)
  case 0
  then show ?case by simp
next
  case (Suc n)
  from Suc.prems(1) obtain pi' pj' where up: "scan_up v ts vp (Suc pi) hi = Inr pi'"
    and down: "scan_down v ts vp (pj - 1) lo = Inr pj'"
    and rest: "(if pi' \<ge> pj' then Inr (ts, pi') else partition_loop n v (swap ts pi' pj') vp pi' pj' lo hi)
       = Inr (t, p)"
    by (simp split: sum.splits)
  from scan_up_bounds [OF up] Suc.prems(2,3) have pi': "Suc pi \<le> pi'" "pi' \<le> hi"
    by auto
  from scan_down_bounds [OF down] Suc.prems(3) have pj': "pj' \<le> hi"
    by simp
  show ?case
  proof (cases "pi' \<ge> pj'")
    case True
    with rest pi' show ?thesis by auto
  next
    case False
    with rest have "partition_loop n v (swap ts pi' pj') vp pi' pj' lo hi = Inr (t, p)"
      by simp
    moreover from False have "pi' < pj'" by simp
    ultimately have "length t = length (swap ts pi' pj') \<and> pi' \<le> p \<and> p \<le> hi"
      using pj' by (rule Suc.IH)
    with pi' show ?thesis
      by (simp add: length_swap)
  qed
qed


lemma partition_result:
  assumes "partition v ts pl pr = Inr (t, p)" and "pl + 1 < pr"
  shows "length t = length ts \<and> pl \<le> p \<and> p \<le> pr - 1"
proof -
  let ?pm = "pl + (pr - pl) div 2"
  from assms(1) obtain t1 t2 t3 t4 where
    t1: "swap_if_less v ts ?pm pl = Inr t1" and
    t2: "swap_if_less v t1 pr ?pm = Inr t2" and
    t3: "swap_if_less v t2 ?pm pl = Inr t3" and
    t4: "partition_loop (pr - pl) v (swap t3 ?pm (pr - 1)) (v ! (t3 ! ?pm)) pl (pr - 1) pl (pr - 1)
           = Inr (t4, p)" and
    t: "t = swap t4 p (pr - 1)"
    by (auto simp: partition_def Let_def split: sum.splits prod.splits)
  from assms(2) have "pl < pr - 1" by simp
  from partition_loop_result [OF t4 this] have
    "length t4 = length (swap t3 ?pm (pr - 1))" "pl \<le> p" "p \<le> pr - 1"
    by simp_all
  with t swap_if_less_length [OF t1] swap_if_less_length [OF t2] swap_if_less_length [OF t3]
  show ?thesis
    by (simp add: length_swap)
qed

lemma ainsertion_length:
  assumes "ainsertion v ts pl pr = Inr t" and "pl \<le> Suc pr" and "pr < length ts"
  shows "length t = length ts"
proof -
  from assms(1) obtain sub where sub: "argsort_loop v (take (Suc pr - pl) (drop pl ts)) [] = Inr sub"
    and t: "t = take pl ts @ sub @ drop (Suc pr) ts"
    by (auto simp: ainsertion_def split: sum.splits)
  from argsort_loop_length [OF sub] assms(2,3) have "length sub = Suc pr - pl"
    by simp
  with t assms(2,3) show ?thesis
    by simp
qed

lemma length_heap_set: "length (heap_set a k x) = length a"
  by (simp add: heap_set_def)

lemma sift_length: "sift v n a tmp i j = Inr a' \<Longrightarrow> length a' = length a"
proof (induction v n a tmp i j rule: sift.induct)
  case (1 v n a tmp i j)
  show ?case
  proof (cases "0 < j \<and> j \<le> n")
    case False
    with "1.prems" show ?thesis
      by (subst (asm) sift.simps) (auto simp: length_heap_set)
  next
    case True
    from "1.prems" True obtain c c' where
      c: "(if j < n then cell_lt (v ! heap_at a j) (v ! heap_at a (j + 1)) else Inr False) = Inr c" and
      c': "cell_lt (v ! tmp) (v ! heap_at a (if c then j + 1 else j)) = Inr c'" and
      rest: "(if c' then sift v n (heap_set a i (heap_at a (if c then j + 1 else j))) tmp
                               (if c then j + 1 else j) (2 * (if c then j + 1 else j))
             else Inr (heap_set a i tmp)) = Inr a'"
      by (subst (asm) sift.simps) (simp split: sum.splits)
    show ?thesis
    proof (cases c')
      case False
      with rest show ?thesis by (auto simp: length_heap_set)
    next
      case c't: True
      with rest have "sift v n (heap_set a i (heap_at a (if c then j + 1 else j))) tmp
                               (if c then j + 1 else j) (2 * (if c then j + 1 else j)) = Inr a'"
        by simp
      from "1.IH" [OF True c c' c't this] show ?thesis
        by (simp add: length_heap_set)
    qed
  qed
qed

lemma heapify_length: "heapify v n l a = Inr a' \<Longrightarrow> length a' = length a"
  by (induction l arbitrary: a) (auto split: sum.splits dest: sift_length)

lemma heap_extract_length: "heap_extract v m a = Inr a' \<Longrightarrow> length a' = length a"
  by (induction m arbitrary: a)
     (auto split: sum.splits if_splits dest!: sift_length simp: length_heap_set)

lemma aheapsort_length:
  assumes "aheapsort v ts pl pr = Inr t" and "pl \<le> Suc pr" and "pr < length ts"
  shows "length t = length ts"
proof -
  let ?n = "Suc pr - pl"
  from assms(1) obtain a sub where a: "heapify v ?n (?n div 2) (take ?n (drop pl ts)) = Inr a"
    and sub: "heap_extract v ?n a = Inr sub"
    and t: "t = take pl ts @ sub @ drop (Suc pr) ts"
    by (auto simp: aheapsort_def Let_def split: sum.splits)
  from heapify_length [OF a] heap_extract_length [OF sub] assms(2,3) have "length sub = Suc pr - pl"
    by simp
  with t assms(2,3) show ?thesis
    by simp
qed


lemma aquicksort_length:
  "aquicksort n v popped cdepth pl pr ts = Inr t \<Longrightarrow> pl \<le> Suc pr \<Longrightarrow> pr < length ts \<Longrightarrow>
   length t = length ts"
proof (induction n arbitrary: popped cdepth pl pr ts t)
  case 0
  then show ?case by simp
next
  case (Suc n)
  show ?case
  proof (cases "popped \<and> cdepth < 0")
    case True
    with Suc.prems show ?thesis
      by (simp add: aheapsort_length)
  next
    case heap: False
    show ?thesis
    proof (cases "pr - pl > 15")
      case False
      with heap Suc.prems show ?thesis
        by (auto simp: ainsertion_length)
    next
      case True
      with heap Suc.prems(1) have q: "(case partition v ts pl pr of
           Inl e \<Rightarrow> Inl e
         | Inr (ts', pi) \<Rightarrow>
             if pi - pl < pr - pi then
               (case aquicksort n v False (cdepth - 1) pl (pi - 1) ts' of
                  Inl e \<Rightarrow> Inl e
                | Inr ts'' \<Rightarrow> aquicksort n v True (cdepth - 1) (pi + 1) pr ts'')
             else
               (case aquicksort n v False (cdepth - 1) (pi + 1) pr ts' of
                  Inl e \<Rightarrow> Inl e
                | Inr ts'' \<Rightarrow> aquicksort n v True (cdepth - 1) pl (pi - 1) ts'')) = Inr t"
        by (cases popped) simp_all
      then obtain ts' p where part: "partition v ts pl pr = Inr (ts', p)"
        by (cases "partition v ts pl pr") auto
      with q have rest: "(if p - pl < pr - p then
               (case aquicksort n v False (cdepth - 1) pl (p - 1) ts' of
                  Inl e \<Rightarrow> Inl e
                | Inr ts'' \<Rightarrow> aquicksort n v True (cdepth - 1) (p + 1) pr ts'')
             else
               (case aquicksort n v False (cdepth - 1) (p + 1) pr ts' of
                  Inl e \<Rightarrow> Inl e
                | Inr ts'' \<Rightarrow> aquicksort n v True (cdepth - 1) pl (p - 1) ts'')) = Inr t"
        by simp
      from True have "pl + 1 < pr" by simp
      from partition_result [OF part this] have len: "length ts' = length ts"
        and p: "pl \<le> p" "p \<le> pr - 1"
        by simp_all
      show ?thesis
      proof (cases "p - pl < pr - p")
        case left: True
        with rest obtain ts'' where a: "aquicksort n v False (cdepth - 1) pl (p - 1) ts' = Inr ts''"
          and b: "aquicksort n v True (cdepth - 1) (p + 1) pr ts'' = Inr t"
          by (cases "aquicksort n v False (cdepth - 1) pl (p - 1) ts'") auto
        from p Suc.prems(3) len have "pl \<le> Suc (p - 1)" "p - 1 < length ts'"
          by simp_all
        from Suc.IH [OF a this] have l1: "length ts'' = length ts'" .
        from p True Suc.prems(3) l1 len have "p + 1 \<le> Suc pr" "pr < length ts''"
          by simp_all
        from Suc.IH [OF b this] l1 len show ?thesis by simp
      next
        case right: False
        with rest obtain ts'' where a: "aquicksort n v False (cdepth - 1) (p + 1) pr ts' = Inr ts''"
          and b: "aquicksort n v True (cdepth - 1) pl (p - 1) ts'' = Inr t"
          by (cases "aquicksort n v False (cdepth - 1) (p + 1) pr ts'") auto
        from p True Suc.prems(3) len have "p + 1 \<le> Suc pr" "pr < length ts'"
          by simp_all
        from Suc.IH [OF a this] have l1: "length ts'' = length ts'" .
        from p Suc.prems(3) l1 len have "pl \<le> Suc (p - 1)" "p - 1 < length ts''"
          by simp_all
        from Suc.IH [OF b this] l1 len show ?thesis by simp
      qed
    qed
  qed
qed

lemma argsort_length: "argsort v = Inr idx \<Longrightarrow> length idx = length v"
proof (cases "v = []")
  case True
  then show "argsort v = Inr idx \<Longrightarrow> length idx = length v"
    by (simp add: argsort_def)
next
  case False
  assume "argsort v = Inr idx"
  with False have "aquicksort (length v) v True (2 * int (get_msb (length v))) 0 (length v - 1)
             [0..<length v] = Inr idx"
    by (simp add: argsort_def)
  from aquicksort_length [OF this] False show "length idx = length v"
    by simp
qed

lemma take_column_length: "take_column a col = Inr v \<Longrightarrow> length v = length (nd_rows a)"
  by (auto simp: take_column_def split: if_splits)

text \<open>
  Schema migration in \<^verbatim>\<open>update_model\<close>. Let \<open>old\<close> be the name of the sort
  column when the call starts. The direction is kept and the new headers are
  installed; when \<open>old\<close> is not among the new headers the sort column becomes 0; when
  it is, the sort column becomes a position of the new headers that holds \<open>old\<close>.
  The new rows are then ordered as \<^verbatim>\<open>sort\<close> orders them: the outcome of the call
  (the table, and the exception if any) is the outcome of \<^verbatim>\<open>sort\<close>, called with
  the resulting column and the kept direction on the table that holds the new array
  and headers.
\<close>

lemma update_model_migration:
  assumes "py_index (headers m) (sortby m) = Inr old"
  shows "sortord (snd (update_model A H m)) = sortord m
    \<and> headers (snd (update_model A H m)) = H
    \<and> (old \<notin> set H \<longrightarrow> sortby (snd (update_model A H m)) = 0)
    \<and> (old \<in> set H \<longrightarrow> py_index H (sortby (snd (update_model A H m))) = Inr old)
    \<and> update_model A H m =
        sort_model (sortby (snd (update_model A H m))) (sortord m)
          (m\<lparr>array := A, headers := H, self_r := length (nd_rows A), self_c := nd_cols A\<rparr>)"
  by (simp add: update_model_as_sort [OF assms] sort_model_state py_index_list_index)

lemma update_model_migration_example:
  "py_index (headers by_cpus) (sortby by_cpus) = Inr ''cpus''
   \<and> sortord (snd (update_model two_columns [''cpus'', ''job_id''] by_cpus)) = DescendingOrder
   \<and> headers (snd (update_model two_columns [''cpus'', ''job_id''] by_cpus)) = [''cpus'', ''job_id'']
   \<and> sortby (snd (update_model two_columns [''cpus'', ''job_id''] by_cpus)) = 0
   \<and> sortby (snd (update_model two_columns [''job_id'', ''qos''] by_cpus)) = 0
   \<and> nd_rows (array (snd (update_model two_columns [''cpus'', ''job_id''] by_cpus)))
       = [[CInt 2, CInt 12], [CInt 8, CInt 11]]"
proof -
  have h: "py_index (headers by_cpus) (sortby by_cpus) = Inr ''cpus''"
    by code_simp
  have ord: "sortord by_cpus = DescendingOrder"
    by code_simp
  have present: "sortby (snd (update_model two_columns [''cpus'', ''job_id''] by_cpus)) = 0"
    by code_simp
  have rows: "nd_rows (array (snd (update_model two_columns [''cpus'', ''job_id''] by_cpus)))
       = [[CInt 2, CInt 12], [CInt 8, CInt 11]]"
    by code_simp
  note kept = update_model_migration [OF h, of two_columns "[''cpus'', ''job_id'']"]
  note lost = update_model_migration [OF h, of two_columns "[''job_id'', ''qos'']"]
  have a: "sortord (snd (update_model two_columns [''cpus'', ''job_id''] by_cpus)) = DescendingOrder"
    using kept [THEN conjunct1] ord by simp
  have b: "headers (snd (update_model two_columns [''cpus'', ''job_id''] by_cpus)) = [''cpus'', ''job_id'']"
    using kept [THEN conjunct2, THEN conjunct1] .
  have c: "sortby (snd (update_model two_columns [''job_id'', ''qos''] by_cpus)) = 0"
    using lost [THEN conjunct2, THEN conjunct2, THEN conjunct1] by simp
  show ?thesis
    by (intro conjI h a b present c rows)
qed

text \<open>
  The counts after a successful \<^verbatim>\<open>sort\<close> and \<^verbatim>\<open>update_model\<close>, on a table of
  any number of rows.
\<close>

lemma sort_model_shape:
  assumes "fst (sort_model col ord m) = None"
  shows "shape (array (snd (sort_model col ord m))) = shape (array m)"
proof -
  have "length idx = length (nd_rows (array m))"
    if "take_column (array m) col = Inr v" and "argsort v = Inr idx" for v idx
    using take_column_length [OF that(1)] argsort_length [OF that(2)] by simp
  with assms show ?thesis
    by (auto simp: sort_model_def Let_def shape_def take_rows_def split: sum.splits)
qed

lemma sort_model_counts:
  assumes "fst (sort_model col ord m) = None"
    and "(rowCount m, columnCount m) = shape (array m)"
  shows "(rowCount (snd (sort_model col ord m)), columnCount (snd (sort_model col ord m)))
     = shape (array (snd (sort_model col ord m)))"
  using assms by (simp add: sort_model_shape rowCount_def columnCount_def sort_model_state)

lemma update_model_counts:
  assumes "fst (update_model A H m) = None"
  shows "(rowCount (snd (update_model A H m)), columnCount (snd (update_model A H m)))
     = shape (array (snd (update_model A H m)))"
proof (cases "py_index (headers m) (sortby m)")
  case (Inl e)
  with assms show ?thesis by (simp add: update_model_def)
next
  case (Inr old)
  show ?thesis
    using assms unfolding update_model_as_sort [OF Inr]
    by (intro sort_model_counts) (simp_all add: rowCount_def columnCount_def shape_def)
qed

text \<open>
  After a \<^verbatim>\<open>sort\<close> on a plain column of at most 16 rows the values of the column
  stand in non-decreasing order under \<^verbatim>\<open>Qt.DescendingOrder\<close> and in
  non-increasing order under \<^verbatim>\<open>Qt.AscendingOrder\<close>.
\<close>

lemma sort_model_monotone:
  assumes "0 \<le> col" and "col < int (nd_cols (array m))"
    and "plain_column (map (\<lambda>r. r ! nat col) (nd_rows (array m)))"
    and "length (nd_rows (array m)) \<le> 16"
  shows "sorted (map (\<lambda>r. cell_key (r ! nat col))
           (if ord = AscendingOrder then rev (nd_rows (array (snd (sort_model col ord m))))
            else nd_rows (array (snd (sort_model col ord m)))))"
  by (simp add: sort_model_plain [OF assms] sorted_rows_def)

section \<open>The window\<close>

lemma from_dict_frame:
  "from_dict jobs = frame_of (df_columns (from_dict jobs)) jobs"
  by (simp add: from_dict_def frame_of_def Let_def)

lemma set_from_dict_columns:
  "set (df_columns (from_dict jobs)) = (\<Union>job\<in>set jobs. fst ` set job)"
  by (simp add: from_dict_def Let_def)

lemma nth_map_list_index:
  "c \<in> set cols \<Longrightarrow> map f cols ! list_index cols c = f c"
  by (induction cols) auto

lemma select_columns_frame:
  assumes "set S \<subseteq> set cols"
  shows "select_columns (frame_of cols jobs) S = Inr (frame_of S jobs)"
proof -
  have "map (\<lambda>c. map (record_get job) cols ! list_index cols c) S = map (record_get job) S" for job
    using assms by (intro map_cong refl) (auto simp: nth_map_list_index)
  then show ?thesis
    using assms by (auto simp: select_columns_def frame_of_def list_all_iff comp_def)
qed

lemma select_columns_missing:
  assumes "\<not> set S \<subseteq> set (df_columns df)"
  shows "select_columns df S = Inl KeyError"
  using assms by (auto simp: select_columns_def list_all_iff)

lemma get_column_frame:
  "c \<in> set S \<Longrightarrow> get_column (frame_of S jobs) c = Inr (map (\<lambda>job. record_get job c) jobs)"
  by (simp add: get_column_def frame_of_def comp_def nth_map_list_index)

lemma zip_filter_maps:
  "map fst (filter snd (zip (map f xs) (map g xs))) = map f (filter g xs)"
  by (induction xs) auto

lemma select_rows_frame:
  "select_rows (frame_of S jobs) (map g jobs) = frame_of S (filter g jobs)"
  by (simp add: select_rows_def frame_of_def zip_filter_maps)

lemma fetch_and_filter_frame:
  assumes "set (sqcols w) \<subseteq> (\<Union>job\<in>set jobs. fst ` set job)"
    and "''job_state'' \<in> set (sqcols w)" and "''user_name'' \<in> set (sqcols w)"
  shows "fetch_and_filter (Inr jobs) w =
    (None, w\<lparr>sqdata := frame_of (sqcols w)
       (filter (\<lambda>job. record_get job ''job_state'' \<in> {CStr ''RUNNING'', CStr ''PENDING''}
                   \<and> (w_selffil w \<longrightarrow> record_get job ''user_name'' = CStr (uname w))) jobs)\<rparr>)"
proof -
  let ?S = "sqcols w"
  have sel: "select_columns (from_dict jobs) ?S = Inr (frame_of ?S jobs)"
    using assms(1) by (subst from_dict_frame) (simp add: select_columns_frame set_from_dict_columns)
  have isin_map: "isin (map (\<lambda>job. record_get job ''job_state'') jobs) [CStr ''RUNNING'', CStr ''PENDING'']
     = map (\<lambda>job. record_get job ''job_state'' \<in> {CStr ''RUNNING'', CStr ''PENDING''}) jobs"
    by (simp add: isin_def comp_def)
  show ?thesis
    using assms(2,3)
    by (simp add: fetch_and_filter_def fetch_squeue_def filter_columns_def filter_state_def
        filter_self_def and_then_def sel get_column_frame isin_map select_rows_frame
        comp_def conj_commute)
qed

lemma refresh_fetch_fails:
  "refresh (Inl e) w = (Some e, w\<lparr>arefcnt := arefcnt w + 1\<rparr>)"
  by (simp add: refresh_def fetch_and_filter_def fetch_squeue_def and_then_def)

lemma refresh_column_missing:
  assumes "\<exists>c\<in>set (sqcols w). \<forall>job\<in>set jobs. c \<notin> fst ` set job"
  shows "refresh (Inr jobs) w = (Some KeyError, w\<lparr>arefcnt := arefcnt w + 1, sqdata := from_dict jobs\<rparr>)"
proof -
  have "\<not> set (sqcols w) \<subseteq> set (df_columns (from_dict jobs))"
    using assms unfolding set_from_dict_columns by blast
  then have "select_columns (from_dict jobs) (sqcols w) = Inl KeyError"
    by (rule select_columns_missing)
  then show ?thesis
    by (simp add: refresh_def fetch_and_filter_def fetch_squeue_def filter_columns_def and_then_def)
qed

lemma length_isoformat: "length (isoformat t) = 19"
  by (simp add: isoformat_def two_digits_def four_digits_def Let_def split: prod.split)

lemma isoformat_not_NA: "isoformat t \<noteq> ''N/A''"
  using length_isoformat [of t] by auto

lemma data_timestamp:
  assumes "isValid index" and "0 \<le> row index" and "row index < int (rowCount m)"
    and "0 \<le> column index" and "column index < int (columnCount m)"
    and "array_get (array m) (nat (row index)) (nat (column index)) = Inr (CTime t)"
  shows "data west index DisplayRole m =
     Inr (CStr (if t + west t = 18000 then ''N/A'' else isoformat t))"
  using assms by (simp add: data_def strftime_s_def)

lemma py_int_1: "py_int ''1'' = Some 1"
  by code_simp

lemma try_rate_Some:
  assumes "py_int new_rate = Some n" and "0 < n" and "n < 10000"
  shows "try_rate new_rate w =
     Some (w\<lparr>arefrte := n * 1000, areftmr := (areftmr w)\<lparr>interval := n * 1000\<rparr>\<rparr>)"
  using assms by (simp add: try_rate_def timer_setInterval_def Let_def)

lemma try_rate_None:
  assumes "py_int new_rate = Some n" and "n \<le> 0 \<or> 10000 \<le> n"
  shows "try_rate new_rate w = None"
  using assms by (auto simp: try_rate_def)

lemma change_rate_valid:
  assumes "py_int new_rate = Some n" and "0 < n" and "n < 10000"
  shows "change_autorefresh_rate new_rate w =
     w\<lparr>arefrte := n * 1000, areftmr := (areftmr w)\<lparr>interval := n * 1000\<rparr>\<rparr>"
  by (subst change_autorefresh_rate.simps) (simp add: try_rate_Some [OF assms])

lemma change_rate_invalid:
  assumes "try_rate new_rate w = None"
  shows "change_autorefresh_rate new_rate w =
     (if w_arefrte w = ''1'' then w
      else w\<lparr>w_arefrte := ''1'', arefrte := 1000, areftmr := (areftmr w)\<lparr>interval := 1000\<rparr>\<rparr>)"
  using assms
  by (subst change_autorefresh_rate.simps) (simp add: change_rate_valid [OF py_int_1])

text \<open>
  The first statements of \<^verbatim>\<open>refresh\<close>, when every column of the window
  occurs in at least one fetched record (the state and user columns being among the
  window's columns): they do not raise, and the frame holds exactly the records whose
  \<^verbatim>\<open>job_state\<close> is \<^verbatim>\<open>RUNNING\<close> or \<^verbatim>\<open>PENDING\<close> and, when the self filter is
  checked, whose \<^verbatim>\<open>user_name\<close> is the user's, in the order fetched, each as its
  values for the window's columns in the window's order.
\<close>

lemma fetch_and_filter_rows:
  assumes "\<forall>c\<in>set (sqcols w). \<exists>job\<in>set jobs. c \<in> fst ` set job"
    and "''job_state'' \<in> set (sqcols w)" and "''user_name'' \<in> set (sqcols w)"
  shows "fetch_and_filter (Inr jobs) w =
    (None, w\<lparr>sqdata := \<lparr>df_columns = sqcols w,
       df_rows = map (\<lambda>job. map (record_get job) (sqcols w))
         (filter (\<lambda>job. record_get job ''job_state'' \<in> {CStr ''RUNNING'', CStr ''PENDING''}
                   \<and> (w_selffil w \<longrightarrow> record_get job ''user_name'' = CStr (uname w))) jobs)\<rparr>\<rparr>)"
proof -
  have "set (sqcols w) \<subseteq> (\<Union>job\<in>set jobs. fst ` set job)"
    using assms(1) by blast
  from fetch_and_filter_frame [OF this assms(2,3)] show ?thesis
    by (simp add: frame_of_def)
qed

lemma fetch_and_filter_rows_example:
  "set (sqcols (init_window ''alice''))
     \<subseteq> (\<Union>job\<in>set [job_done, job_started 18000, job_no_cpus]. fst ` set job)
   \<and> ''job_state'' \<in> set (sqcols (init_window ''alice''))
   \<and> ''user_name'' \<in> set (sqcols (init_window ''alice''))
   \<and> fst (fetch_and_filter (Inr [job_done, job_started 18000, job_no_cpus]) (init_window ''alice'')) = None
   \<and> sqdata (snd (fetch_and_filter (Inr [job_done, job_started 18000, job_no_cpus]) (init_window ''alice'')))
      = \<lparr>df_columns = [''job_id'', ''job_state'', ''user_name'', ''qos'', ''node_count'', ''cpus'',
                       ''start_time''],
         df_rows = [[CInt 1, CStr ''RUNNING'', CStr ''alice'', CStr ''normal'', CInt 1, CInt 4, CInt 18000],
                    [CInt 3, CStr ''PENDING'', CStr ''alice'', CStr ''normal'', CInt 1, CNaN, CInt 0]]\<rparr>"
proof -
  let ?w = "init_window ''alice''"
  let ?jobs = "[job_done, job_started 18000, job_no_cpus]"
  have h1: "\<forall>c\<in>set (sqcols ?w). \<exists>job\<in>set ?jobs. c \<in> fst ` set job"
    by code_simp
  have h2: "''job_state'' \<in> set (sqcols ?w)" by code_simp
  have h3: "''user_name'' \<in> set (sqcols ?w)" by code_simp
  have cols: "sqcols ?w = [''job_id'', ''job_state'', ''user_name'', ''qos'', ''node_count'', ''cpus'',
      ''start_time'']"
    by code_simp
  have rows: "map (\<lambda>job. map (record_get job) (sqcols ?w))
      (filter (\<lambda>job. record_get job ''job_state'' \<in> {CStr ''RUNNING'', CStr ''PENDING''}
                 \<and> (w_selffil ?w \<longrightarrow> record_get job ''user_name'' = CStr (uname ?w))) ?jobs)
     = [[CInt 1, CStr ''RUNNING'', CStr ''alice'', CStr ''normal'', CInt 1, CInt 4, CInt 18000],
        [CInt 3, CStr ''PENDING'', CStr ''alice'', CStr ''normal'', CInt 1, CNaN, CInt 0]]"
    by code_simp
  have "fetch_and_filter (Inr ?jobs) ?w =
     (None, ?w\<lparr>sqdata := \<lparr>df_columns = sqcols ?w,
        df_rows = [[CInt 1, CStr ''RUNNING'', CStr ''alice'', CStr ''normal'', CInt 1, CInt 4, CInt 18000],
                   [CInt 3, CStr ''PENDING'', CStr ''alice'', CStr ''normal'', CInt 1, CNaN, CInt 0]]\<rparr>\<rparr>)"
    using fetch_and_filter_rows [OF h1 h2 h3] unfolding rows .
  moreover have "set (sqcols ?w) \<subseteq> (\<Union>job\<in>set ?jobs. fst ` set job)"
    using h1 by blast
  ultimately show ?thesis
    using h2 h3 cols by simp
qed

section \<open>Claims\<close>

text \<open>
  C1. The claim: \<^verbatim>\<open>sortBy(column, ascending)\<close> puts the smallest value of the column
  first; on rows whose \<^verbatim>\<open>cpus\<close> are 4, 1, 2 the order becomes 1, 2, 4. The program:
  \<^verbatim>\<open>sort\<close> with \<^verbatim>\<open>Qt.AscendingOrder\<close> reverses the ascending \<^verbatim>\<open>argsort\<close>, so
  on these rows it succeeds and leaves the \<^verbatim>\<open>cpus\<close> in the order 4, 2, 1 (the jobs
  1, 3, 2), largest first.
\<close>

theorem sort_ascending_flag_largest_first:
  "sort_model 5 AscendingOrder cpus_412 =
     (None, cpus_412\<lparr>sortby := 5, sortord := AscendingOrder,
                      array := \<lparr>nd_rows = [job_row 1 4, job_row 3 2, job_row 2 1], nd_cols = 7\<rparr>\<rparr>)
   \<and> take_column (array (snd (sort_model 5 AscendingOrder cpus_412))) 5
       = Inr [CInt 4, CInt 2, CInt 1]"
  by code_simp

text \<open>
  C3. The claim: \<^verbatim>\<open>replace\<close> keeps the sort column by name and the direction, and
  the new rows are immediately re-sorted under the resulting sort state. The
  program, on the table whose sort column is \<^verbatim>\<open>cpus\<close> (column 5) with
  \<^verbatim>\<open>Qt.DescendingOrder\<close>, replaced by the three jobs on the same headers: the name
  \<^verbatim>\<open>cpus\<close> is found again at column 5 and the direction is kept, and the rows are
  left with \<^verbatim>\<open>cpus\<close> 1, 2, 4, smallest first, under the descending state.
\<close>

theorem update_model_descending_flag_cpus:
  "py_index (headers by_cpus) (sortby by_cpus) = Inr ''cpus''
   \<and> sortord by_cpus = DescendingOrder
   \<and> update_model (array cpus_412) (headers cpus_412) by_cpus =
       (None, by_cpus\<lparr>array := \<lparr>nd_rows = [job_row 2 1, job_row 3 2, job_row 1 4], nd_cols = 7\<rparr>\<rparr>)
   \<and> sortby (snd (update_model (array cpus_412) (headers cpus_412) by_cpus)) = 5
   \<and> sortord (snd (update_model (array cpus_412) (headers cpus_412) by_cpus)) = DescendingOrder
   \<and> take_column (array (snd (update_model (array cpus_412) (headers cpus_412) by_cpus))) 5
       = Inr [CInt 1, CInt 2, CInt 4]"
  by code_simp

text \<open>
  C5. The claim: \<^verbatim>\<open>sortBy\<close> is stable, two rows with equal values in the sort
  column keep their relative order. The program under \<^verbatim>\<open>Qt.AscendingOrder\<close>: two
  jobs with the same \<^verbatim>\<open>cpus\<close>, job 1 before job 2, come out as job 2 before job 1.
\<close>

theorem sort_ascending_flag_swaps_ties:
  "nd_rows (array cpus_44) = [job_row 1 4, job_row 2 4]
   \<and> job_row 1 4 ! 5 = job_row 2 4 ! 5
   \<and> sort_model 5 AscendingOrder cpus_44 =
       (None, cpus_44\<lparr>sortby := 5, sortord := AscendingOrder,
                       array := \<lparr>nd_rows = [job_row 2 4, job_row 1 4], nd_cols = 7\<rparr>\<rparr>)"
  by code_simp

text \<open>
  C5 as the program has it, on a table of at most 16 rows (where numpy's sort is
  the insertion sort) and a column of integers, of strings or of timestamps. Let
  \<open>idx\<close> be the \<^verbatim>\<open>argsort\<close> of the column. \<^verbatim>\<open>sort\<close> succeeds and leaves the
  rows either in the order \<open>idx\<close> or in the reversed order \<open>rev idx\<close>. In the order
  \<open>idx\<close> the rows holding any one value \<open>k\<close> in the sort column keep their relative
  order; in the reversed order they stand in the reverse of it.
\<close>

theorem sort_ties_kept_or_reversed:
  assumes "0 \<le> col" and "col < int (nd_cols (array m))"
    and "plain_column (map (\<lambda>r. r ! nat col) (nd_rows (array m)))"
    and "length (nd_rows (array m)) \<le> 16"
  shows "\<exists>idx. argsort (map (\<lambda>r. r ! nat col) (nd_rows (array m))) = Inr idx
     \<and> fst (sort_model col ord m) = None
     \<and> (array (snd (sort_model col ord m)) = take_rows (array m) idx
          \<or> array (snd (sort_model col ord m)) = take_rows (array m) (rev idx))
     \<and> (\<forall>k. filter (\<lambda>r. r ! nat col = k) (nd_rows (take_rows (array m) idx))
              = filter (\<lambda>r. r ! nat col = k) (nd_rows (array m)))
     \<and> (\<forall>k. filter (\<lambda>r. r ! nat col = k) (nd_rows (take_rows (array m) (rev idx)))
              = rev (filter (\<lambda>r. r ! nat col = k) (nd_rows (array m))))"
proof -
  let ?rows = "nd_rows (array m)"
  let ?f = "\<lambda>r::cell list. r ! nat col"
  obtain idx where idx: "argsort (map ?f ?rows) = Inr idx"
    using argsort_plain_ok [OF assms(3)] assms(4) by auto
  have taken: "map (\<lambda>i. ?rows ! i) idx = sort_key (\<lambda>r. cell_key (?f r)) ?rows"
    using take_rows_argsort [OF assms(3,4) idx] .
  have kept: "filter (\<lambda>r. r ! nat col = k) (nd_rows (take_rows (array m) idx))
      = filter (\<lambda>r. r ! nat col = k) ?rows" for k
    by (simp add: take_rows_def taken filter_sort_key_cell [OF assms(3)])
  have reversed: "filter (\<lambda>r. r ! nat col = k) (nd_rows (take_rows (array m) (rev idx)))
      = rev (filter (\<lambda>r. r ! nat col = k) ?rows)" for k
  proof -
    have "filter (\<lambda>r. r ! nat col = k) (map (\<lambda>i. ?rows ! i) (rev idx))
        = rev (filter (\<lambda>r. r ! nat col = k) (map (\<lambda>i. ?rows ! i) idx))"
      by (simp add: rev_filter rev_map)
    with kept [of k] show ?thesis
      by (simp add: take_rows_def)
  qed
  have "fst (sort_model col ord m) = None"
    and "array (snd (sort_model col ord m)) = take_rows (array m) idx
          \<or> array (snd (sort_model col ord m)) = take_rows (array m) (rev idx)"
    by (simp_all add: sort_model_rows [OF assms idx])
  with idx kept reversed show ?thesis
    by blast
qed

theorem sort_ties_kept_or_reversed_witness:
  "0 \<le> (5::int) \<and> 5 < int (nd_cols (array (cpus_cycle 16)))
   \<and> plain_column (map (\<lambda>r. r ! nat 5) (nd_rows (array (cpus_cycle 16))))
   \<and> length (nd_rows (array (cpus_cycle 16))) = 16
   \<and> fst (sort_model 5 DescendingOrder (cpus_cycle 16)) = None
   \<and> (filter (\<lambda>r. r ! nat 5 = CInt 1) (nd_rows (array (snd (sort_model 5 DescendingOrder (cpus_cycle 16)))))
         = filter (\<lambda>r. r ! nat 5 = CInt 1) (nd_rows (array (cpus_cycle 16)))
       \<or> filter (\<lambda>r. r ! nat 5 = CInt 1) (nd_rows (array (snd (sort_model 5 DescendingOrder (cpus_cycle 16)))))
         = rev (filter (\<lambda>r. r ! nat 5 = CInt 1) (nd_rows (array (cpus_cycle 16)))))"
proof -
  let ?m = "cpus_cycle 16"
  have h1: "0 \<le> (5::int)" by simp
  have h2: "5 < int (nd_cols (array ?m))" by code_simp
  have h3: "plain_column (map (\<lambda>r. r ! nat 5) (nd_rows (array ?m)))" by code_simp
  have len: "length (nd_rows (array ?m)) = 16" by code_simp
  then have h4: "length (nd_rows (array ?m)) \<le> 16" by simp
  from sort_ties_kept_or_reversed [OF h1 h2 h3 h4, of DescendingOrder]
  obtain idx where ok: "fst (sort_model 5 DescendingOrder ?m) = None"
    and which: "array (snd (sort_model 5 DescendingOrder ?m)) = take_rows (array ?m) idx
         \<or> array (snd (sort_model 5 DescendingOrder ?m)) = take_rows (array ?m) (rev idx)"
    and kept: "filter (\<lambda>r. r ! nat 5 = CInt 1) (nd_rows (take_rows (array ?m) idx))
         = filter (\<lambda>r. r ! nat 5 = CInt 1) (nd_rows (array ?m))"
    and reversed: "filter (\<lambda>r. r ! nat 5 = CInt 1) (nd_rows (take_rows (array ?m) (rev idx)))
         = rev (filter (\<lambda>r. r ! nat 5 = CInt 1) (nd_rows (array ?m)))"
    by blast
  from which kept reversed
  have "filter (\<lambda>r. r ! nat 5 = CInt 1) (nd_rows (array (snd (sort_model 5 DescendingOrder ?m))))
         = filter (\<lambda>r. r ! nat 5 = CInt 1) (nd_rows (array ?m))
       \<or> filter (\<lambda>r. r ! nat 5 = CInt 1) (nd_rows (array (snd (sort_model 5 DescendingOrder ?m))))
         = rev (filter (\<lambda>r. r ! nat 5 = CInt 1) (nd_rows (array ?m)))"
    by auto
  with h1 h2 h3 len ok show ?thesis
    by blast
qed

text \<open>
  The bound is the one of numpy's sort: on the 17 jobs the column is partitioned, and
  already the \<^verbatim>\<open>argsort\<close> as it is leaves the jobs with \<^verbatim>\<open>cpus\<close> 0 in the order
  0, 12, 3, 9, 6, 15; on 16 jobs they stay in the order 0, 3, 6, 9, 12, 15.
\<close>

lemma argsort_partitions_from_17:
  "argsort (map (\<lambda>r. r ! 5) (nd_rows (array (cpus_cycle 17)))) =
     Inr [0, 12, 3, 9, 6, 15, 13, 10, 16, 4, 1, 7, 5, 11, 2, 14, 8]
   \<and> argsort (map (\<lambda>r. r ! 5) (nd_rows (array (cpus_cycle 16)))) =
     Inr [0, 3, 6, 9, 12, 15, 1, 4, 7, 10, 13, 2, 5, 8, 11, 14]"
  by code_simp




text \<open>
  On the 17 jobs a second \<^verbatim>\<open>sort\<close> under \<^verbatim>\<open>Qt.DescendingOrder\<close>, which does not
  reverse, orders the jobs with equal \<^verbatim>\<open>cpus\<close> anew: those with \<^verbatim>\<open>cpus\<close> 1 stand
  13, 10, 16, 4, 1, 7 after the first call and 7, 1, 4, 16, 10, 13 after the second.
\<close>

lemma sort_twice_differs_from_17:
  "map hd (filter (\<lambda>r. r ! 5 = CInt 1)
      (nd_rows (array (snd (sort_model 5 DescendingOrder (cpus_cycle 17))))))
     = [CInt 13, CInt 10, CInt 16, CInt 4, CInt 1, CInt 7]
   \<and> map hd (filter (\<lambda>r. r ! 5 = CInt 1)
      (nd_rows (array (snd (sort_model 5 DescendingOrder
         (snd (sort_model 5 DescendingOrder (cpus_cycle 17))))))))
     = [CInt 7, CInt 1, CInt 4, CInt 16, CInt 10, CInt 13]"
  by code_simp




text \<open>
  C8. The claim: after every successful \<^verbatim>\<open>replace\<close>, \<^verbatim>\<open>sortBy\<close> and
  \<^verbatim>\<open>editCell\<close> the counts agree with the array and the rows are in the order the
  sort state names. The program, on the first replace of the empty table by the
  three jobs: the call succeeds and the counts are 3 and 7, the sort state is column
  0 (\<^verbatim>\<open>job_id\<close>) with \<^verbatim>\<open>Qt.DescendingOrder\<close>, and the job ids stand 1, 2, 3,
  smallest first. An edit of a cell of that table raises \<^verbatim>\<open>AttributeError\<close>.
\<close>

theorem update_model_descending_flag_smallest_first:
  "update_model (array cpus_412) (headers cpus_412) empty_table = (None, cpus_412)
   \<and> rowCount cpus_412 = 3 \<and> columnCount cpus_412 = 7
   \<and> shape (array cpus_412) = (3, 7)
   \<and> sortby cpus_412 = 0 \<and> sortord cpus_412 = DescendingOrder
   \<and> take_column (array cpus_412) 0 = Inr [CInt 1, CInt 2, CInt 3]
   \<and> setData \<lparr>isValid = True, row = 0, column = 0\<rparr> (CInt 9) EditRole cpus_412
       = (Inl AttributeError, cpus_412)"
  by code_simp

text \<open>
  C2. The claim: a refresh cycle that fails has its error caught at the cycle's
  boundary. The program: \<^verbatim>\<open>refresh\<close> has no handler; when the fetch fails, and
  when the one fetched record has no \<^verbatim>\<open>cpus\<close> field, the exception leaves
  \<^verbatim>\<open>refresh\<close>.
\<close>

theorem refresh_raises:
  "fst (refresh (Inl CalledProcessError) (init_window ''alice'')) = Some CalledProcessError
   \<and> fst (refresh (Inr [job_no_cpus]) (init_window ''alice'')) = Some KeyError"
  by code_simp

text \<open>
  C2 as the program has it. A cycle whose fetch fails with \<open>e\<close> raises \<open>e\<close> out of
  \<^verbatim>\<open>refresh\<close>, and a cycle in which a column of the window occurs in no fetched
  record raises \<^verbatim>\<open>KeyError\<close> out of it. In both the table model and the timer are
  as before the cycle; the refresh counter has been incremented, and after the
  \<^verbatim>\<open>KeyError\<close> the window's frame is the unprojected frame of the fetched records.
\<close>

theorem refresh_failure_leaves_table:
  "refresh (Inl e) w = (Some e, w\<lparr>arefcnt := arefcnt w + 1\<rparr>)
   \<and> sqmodel (snd (refresh (Inl e) w)) = sqmodel w
   \<and> areftmr (snd (refresh (Inl e) w)) = areftmr w
   \<and> ((\<exists>c\<in>set (sqcols w). \<forall>job\<in>set jobs. c \<notin> fst ` set job) \<longrightarrow>
         refresh (Inr jobs) w =
           (Some KeyError, w\<lparr>arefcnt := arefcnt w + 1, sqdata := from_dict jobs\<rparr>)
       \<and> sqmodel (snd (refresh (Inr jobs) w)) = sqmodel w
       \<and> areftmr (snd (refresh (Inr jobs) w)) = areftmr w)"
  by (simp add: refresh_fetch_fails refresh_column_missing)

theorem refresh_failure_leaves_table_witness:
  "(\<exists>c\<in>set (sqcols (init_window ''alice'')). \<forall>job\<in>set [job_no_cpus]. c \<notin> fst ` set job)
   \<and> refresh (Inr [job_no_cpus]) (init_window ''alice'') =
       (Some KeyError, (init_window ''alice'')\<lparr>arefcnt := arefcnt (init_window ''alice'') + 1,
                                              sqdata := from_dict [job_no_cpus]\<rparr>)
   \<and> sqmodel (snd (refresh (Inr [job_no_cpus]) (init_window ''alice''))) = sqmodel (init_window ''alice'')
   \<and> areftmr (snd (refresh (Inr [job_no_cpus]) (init_window ''alice''))) = areftmr (init_window ''alice'')"
proof -
  have h: "\<exists>c\<in>set (sqcols (init_window ''alice'')). \<forall>job\<in>set [job_no_cpus]. c \<notin> fst ` set job"
    by code_simp
  from refresh_failure_leaves_table [of CalledProcessError "init_window ''alice''" "[job_no_cpus]"] h
  show ?thesis by blast
qed

text \<open>
  C4. The claim: an interval outside 1..9999 is refused and the previous interval
  stays in effect. The program, with auto refresh running every 5000 ms and the rate
  field just changed to \<^verbatim>\<open>0\<close>: the handler puts \<^verbatim>\<open>1\<close> into the field, which
  runs the handler again with \<^verbatim>\<open>1\<close>, and the rate and the timer's interval end at
  1000 ms.
\<close>

theorem invalid_rate_resets_interval:
  "py_int ''0'' = Some 0
   \<and> arefrte rate_5 = 5000 \<and> interval (areftmr rate_5) = 5000
   \<and> arefrte (change_autorefresh_rate ''0'' rate_5) = 1000
   \<and> interval (areftmr (change_autorefresh_rate ''0'' rate_5)) = 1000
   \<and> w_arefrte (change_autorefresh_rate ''0'' rate_5) = ''1''"
  by code_simp

text \<open>
  C4 as the program has it, for a text that \<^verbatim>\<open>int\<close> reads as \<open>n\<close>. For \<open>n\<close> in
  1..9999 the rate and the timer's interval become \<open>n * 1000\<close> ms and nothing else
  changes. For \<open>n \<le> 0\<close> or \<open>n \<ge> 10000\<close> the call returns without raising and the
  rate field shows \<^verbatim>\<open>1\<close>; when the field showed \<^verbatim>\<open>1\<close> already the window is
  unchanged (the previous rate stays), otherwise the rate and the timer's interval
  become 1000 ms.
\<close>

theorem rate_change:
  assumes "py_int new_rate = Some n"
  shows "(0 < n \<and> n < 10000 \<longrightarrow>
            change_autorefresh_rate new_rate w =
              w\<lparr>arefrte := n * 1000, areftmr := (areftmr w)\<lparr>interval := n * 1000\<rparr>\<rparr>)
     \<and> (n \<le> 0 \<or> 10000 \<le> n \<longrightarrow>
            w_arefrte (change_autorefresh_rate new_rate w) = ''1''
          \<and> (w_arefrte w = ''1'' \<longrightarrow> change_autorefresh_rate new_rate w = w)
          \<and> (w_arefrte w \<noteq> ''1'' \<longrightarrow>
                change_autorefresh_rate new_rate w =
                  w\<lparr>w_arefrte := ''1'', arefrte := 1000,
                    areftmr := (areftmr w)\<lparr>interval := 1000\<rparr>\<rparr>))"
  using assms
  by (auto simp: change_rate_valid change_rate_invalid try_rate_None)

theorem rate_change_witness:
  "py_int ''9999'' = Some 9999 \<and> py_int ''10000'' = Some 10000 \<and> py_int ''-5'' = Some (- 5)
   \<and> w_arefrte rate_5 \<noteq> ''1'' \<and> w_arefrte (init_window ''alice'') = ''1''
   \<and> arefrte (change_autorefresh_rate ''9999'' rate_5) = 9999000
   \<and> interval (areftmr (change_autorefresh_rate ''9999'' rate_5)) = 9999000
   \<and> arefrte (change_autorefresh_rate ''10000'' rate_5) = 1000
   \<and> arefrte (change_autorefresh_rate ''-5'' rate_5) = 1000
   \<and> change_autorefresh_rate ''10000'' (init_window ''alice'') = init_window ''alice''"
proof -
  have p1: "py_int ''9999'' = Some 9999" by code_simp
  have p2: "py_int ''10000'' = Some 10000" by code_simp
  have p3: "py_int ''-5'' = Some (- 5)" by code_simp
  have t5: "w_arefrte rate_5 \<noteq> ''1''" by code_simp
  have t1: "w_arefrte (init_window ''alice'') = ''1''" by code_simp
  have a: "arefrte (change_autorefresh_rate ''9999'' rate_5) = 9999000
      \<and> interval (areftmr (change_autorefresh_rate ''9999'' rate_5)) = 9999000"
    using rate_change [OF p1, of rate_5] by simp
  have b: "arefrte (change_autorefresh_rate ''10000'' rate_5) = 1000"
    using rate_change [OF p2, of rate_5] t5 by simp
  have c: "arefrte (change_autorefresh_rate ''-5'' rate_5) = 1000"
    using rate_change [OF p3, of rate_5] t5 by simp
  have d: "change_autorefresh_rate ''10000'' (init_window ''alice'') = init_window ''alice''"
    using rate_change [OF p2, of "init_window ''alice''"] t1 by simp
  show ?thesis
    using p1 p2 p3 t5 t1 a b c d by blast
qed

text \<open>
  C6. The claim: for every set of raw records the build step returns the snapshot of
  exactly the records whose state is \<^verbatim>\<open>RUNNING\<close> or \<^verbatim>\<open>PENDING\<close>, projected
  on the window's columns. The program on the empty list of records (an empty queue):
  the frame of no records has no columns, so the projection on the window's columns
  raises \<^verbatim>\<open>KeyError\<close>, out of the first statements of \<^verbatim>\<open>refresh\<close> and out of
  \<^verbatim>\<open>refresh\<close>, and the table is not replaced by the empty one.
\<close>

theorem empty_queue_raises:
  "from_dict [] = \<lparr>df_columns = [], df_rows = []\<rparr>
   \<and> fetch_and_filter (Inr []) (init_window ''alice'') =
       (Some KeyError, (init_window ''alice'')\<lparr>sqdata := \<lparr>df_columns = [], df_rows = []\<rparr>\<rparr>)
   \<and> fst (refresh (Inr []) (table_window [job_started 18000])) = Some KeyError
   \<and> sqmodel (snd (refresh (Inr []) (table_window [job_started 18000])))
       = table_after [job_started 18000]
   \<and> rowCount (table_after [job_started 18000]) = 1"
  by code_simp

text \<open>
  C7. The claim: a timestamp cell whose raw value is 18000 is shown as unset, and
  every other raw value as a date. The program in a zone five hours behind UTC:
  the job started at raw second 18000 is shown with the date
  \<^verbatim>\<open>1970-01-01T05:00:00\<close>, and the job started at raw second 0 is shown as
  \<^verbatim>\<open>N/A\<close>.
\<close>

theorem raw_18000_shown_as_date:
  "shown_start utc_minus_5 18000 = Inr (CStr ''1970-01-01T05:00:00'')
   \<and> shown_start utc_minus_5 0 = Inr (CStr ''N/A'')"
  by code_simp

text \<open>
  C7 as the program has it. A cell in range that holds the timestamp converted from
  the raw integer \<open>raw\<close> is displayed as \<^verbatim>\<open>N/A\<close> exactly when \<open>raw\<close> plus the
  number of seconds the local zone is behind UTC equals 18000, and as the ISO date
  and time of \<open>raw\<close> otherwise, which is never the text \<^verbatim>\<open>N/A\<close>.
\<close>

theorem timestamp_display:
  assumes "isValid index" and "0 \<le> row index" and "row index < int (rowCount m)"
    and "0 \<le> column index" and "column index < int (columnCount m)"
    and "to_datetime1 (CInt raw) = Inr c"
    and "array_get (array m) (nat (row index)) (nat (column index)) = Inr c"
  shows "data west index DisplayRole m =
       Inr (CStr (if raw + west raw = 18000 then ''N/A'' else isoformat raw))
     \<and> isoformat raw \<noteq> ''N/A''"
proof -
  from assms(6) have "c = CTime raw"
    by (simp split: if_splits)
  with assms(7) have "array_get (array m) (nat (row index)) (nat (column index)) = Inr (CTime raw)"
    by simp
  from data_timestamp [OF assms(1-5) this] isoformat_not_NA show ?thesis
    by simp
qed

theorem timestamp_display_witness:
  "isValid start_index \<and> 0 \<le> row start_index
   \<and> row start_index < int (rowCount (table_after [job_started 18000]))
   \<and> 0 \<le> column start_index
   \<and> column start_index < int (columnCount (table_after [job_started 18000]))
   \<and> to_datetime1 (CInt 18000) = Inr (CTime 18000)
   \<and> array_get (array (table_after [job_started 18000])) (nat (row start_index)) (nat (column start_index))
       = Inr (CTime 18000)
   \<and> data utc start_index DisplayRole (table_after [job_started 18000]) = Inr (CStr ''N/A'')
   \<and> data utc_minus_5 start_index DisplayRole (table_after [job_started 18000])
       = Inr (CStr (isoformat 18000))"
proof -
  let ?m = "table_after [job_started 18000]"
  have h1: "isValid start_index" by code_simp
  have h2: "0 \<le> row start_index" by code_simp
  have h3: "row start_index < int (rowCount ?m)" by code_simp
  have h4: "0 \<le> column start_index" by code_simp
  have h5: "column start_index < int (columnCount ?m)" by code_simp
  have h6: "to_datetime1 (CInt 18000) = Inr (CTime 18000)" by simp
  have h7: "array_get (array ?m) (nat (row start_index)) (nat (column start_index)) = Inr (CTime 18000)"
    by code_simp
  have a: "data utc start_index DisplayRole ?m = Inr (CStr ''N/A'')"
    using timestamp_display [OF h1 h2 h3 h4 h5 h6 h7, of utc] by (simp add: utc_def)
  have b: "data utc_minus_5 start_index DisplayRole ?m = Inr (CStr (isoformat 18000))"
    using timestamp_display [OF h1 h2 h3 h4 h5 h6 h7, of utc_minus_5] by (simp add: utc_minus_5_def)
  show ?thesis
    by (intro conjI h1 h2 h3 h4 h5 h6 h7 a b)
qed

end
